theory Spec2Isabelle
  imports Complex_Main
begin

section \<open>Numbers, errors and small vectors\<close>

text \<open>
  The numbers of the imported scene and the time passed in (\<open>float\<close> and \<open>double\<close>) are
  finite, and are read as their exact rational value.  What the program computes from
  them is a value of \<open>fl\<close>: a finite number, an infinity or NaN; every operation rounds
  its exact result to the type it is computed in, to an infinity beyond the largest
  finite number of that type.  The two zeros are one value.  \<open>unsigned int\<close> is \<open>nat\<close>,
  with the wrap-around at \<open>2 ^ 32\<close> written where the source increments or decrements.
\<close>

type_synonym float = rat
type_synonym double = rat

datatype fl = Fin rat | PInf | NInf | NaN

text \<open>\<open>expo x\<close> is the binary exponent of \<open>x\<close>: \<open>2 ^ expo x \<le> \<bar>x\<bar> < 2 ^ (expo x + 1)\<close>.\<close>

function expo_down :: "rat \<Rightarrow> int" where
  "expo_down x = (if 2 \<le> x then expo_down (x / 2) + 1 else 0)"
  by pat_completeness auto
termination
proof (relation "measure (\<lambda>x. nat \<lfloor>x\<rfloor>)")
  show "wf (measure (\<lambda>x::rat. nat \<lfloor>x\<rfloor>))" by simp
next
  fix x :: rat
  assume a: "2 \<le> x"
  have "x - 1 < of_int \<lfloor>x\<rfloor>" by linarith
  with a have "x / 2 < of_int \<lfloor>x\<rfloor>" by linarith
  then have "\<lfloor>x / 2\<rfloor> < \<lfloor>x\<rfloor>" by (simp add: floor_less_iff)
  moreover have "0 < \<lfloor>x\<rfloor>" using a by linarith
  ultimately show "(x / 2, x) \<in> measure (\<lambda>x. nat \<lfloor>x\<rfloor>)" by simp
qed

function expo_up :: "rat \<Rightarrow> int" where
  "expo_up x = (if 0 < x \<and> x < 1 then expo_up (2 * x) - 1 else 0)"
  by pat_completeness auto
termination
proof (relation "measure (\<lambda>x. nat \<lfloor>1 / x\<rfloor>)")
  show "wf (measure (\<lambda>x::rat. nat \<lfloor>1 / x\<rfloor>))" by simp
next
  fix x :: rat
  assume a: "0 < x \<and> x < 1"
  define y where "y = 1 / x"
  have y1: "1 < y" using a by (simp add: y_def)
  have f1: "1 \<le> \<lfloor>y\<rfloor>" using y1 by (simp add: le_floor_iff)
  have f2: "y - 1 < of_int \<lfloor>y\<rfloor>" by linarith
  have "y / 2 < of_int \<lfloor>y\<rfloor>"
  proof (cases "y < 2")
    case True
    have "(1::rat) \<le> of_int \<lfloor>y\<rfloor>" using f1 by linarith
    with True show ?thesis by linarith
  next
    case False
    with f2 show ?thesis by linarith
  qed
  then have "\<lfloor>y / 2\<rfloor> < \<lfloor>y\<rfloor>" by (simp add: floor_less_iff)
  moreover have "1 / (2 * x) = y / 2" by (simp add: y_def)
  ultimately have "\<lfloor>1 / (2 * x)\<rfloor> < \<lfloor>y\<rfloor>" by (simp only:)
  then have "\<lfloor>1 / (2 * x)\<rfloor> < \<lfloor>1 / x\<rfloor>" by (simp only: y_def)
  moreover have "0 < \<lfloor>1 / x\<rfloor>" using f1 by (simp add: y_def)
  ultimately show "(2 * x, x) \<in> measure (\<lambda>x. nat \<lfloor>1 / x\<rfloor>)" by simp
qed

declare expo_down.simps [simp del]
declare expo_up.simps [simp del]

definition expo :: "rat \<Rightarrow> int" where
  "expo x = (if 1 \<le> \<bar>x\<bar> then expo_down \<bar>x\<bar> else expo_up \<bar>x\<bar>)"

definition round_even :: "rat \<Rightarrow> int" where
  "round_even q =
     (let n = \<lfloor>q\<rfloor>; r = q - of_int n
      in if r < 1 / 2 then n else if 1 / 2 < r then n + 1 else if even n then n else n + 1)"

text \<open>
  Rounding to the nearest floating-point number of \<open>p\<close> significant bits with exponents
  from \<open>emin\<close> to \<open>emax\<close>, ties to even.  Below \<open>2 ^ emin\<close> the numbers are the subnormal
  ones, spaced as at \<open>2 ^ emin\<close>; a result that rounds to \<open>2 ^ (emax + 1)\<close> or beyond is an
  infinity.
\<close>

definition round_fl :: "nat \<Rightarrow> int \<Rightarrow> int \<Rightarrow> rat \<Rightarrow> fl" where
  "round_fl p emin emax x =
     (if x = 0 then Fin 0
      else
        (let u = 2 powi (max (expo x) emin - int p + 1);
             r = of_int (round_even (x / u)) * u
         in if 2 powi (emax + 1) \<le> \<bar>r\<bar> then (if 0 < x then PInf else NInf) else Fin r))"

text \<open>A value stored in a \<open>float\<close> (24 significant bits, exponents -126 to 127) and in a
  \<open>double\<close> (53 significant bits, exponents -1022 to 1023).\<close>

definition f32 :: "rat \<Rightarrow> fl" where
  "f32 = round_fl 24 (- 126) 127"

definition f64 :: "rat \<Rightarrow> fl" where
  "f64 = round_fl 53 (- 1022) 1023"

text \<open>The conversion \<open>(float)\<close> of a computed value.\<close>

fun to_float :: "fl \<Rightarrow> fl" where
  "to_float (Fin a) = f32 a"
| "to_float PInf = PInf"
| "to_float NInf = NInf"
| "to_float NaN = NaN"

text \<open>
  The arithmetic of IEEE 754, with the rounding \<open>rnd\<close> of the type the operation is
  computed in.  A nonzero number divided by zero is an infinity; it is given the sign of
  the dividend (the sign of the zero is not modelled, and nothing in the source tells the
  two infinities apart after a division).
\<close>

fun fl_neg :: "fl \<Rightarrow> fl" where
  "fl_neg (Fin a) = Fin (- a)"
| "fl_neg PInf = NInf"
| "fl_neg NInf = PInf"
| "fl_neg NaN = NaN"

fun fl_add :: "(rat \<Rightarrow> fl) \<Rightarrow> fl \<Rightarrow> fl \<Rightarrow> fl" where
  "fl_add rnd (Fin a) (Fin b) = rnd (a + b)"
| "fl_add rnd NaN y = NaN"
| "fl_add rnd x NaN = NaN"
| "fl_add rnd PInf NInf = NaN"
| "fl_add rnd NInf PInf = NaN"
| "fl_add rnd PInf y = PInf"
| "fl_add rnd x PInf = PInf"
| "fl_add rnd NInf y = NInf"
| "fl_add rnd x NInf = NInf"

definition fl_sub :: "(rat \<Rightarrow> fl) \<Rightarrow> fl \<Rightarrow> fl \<Rightarrow> fl" where
  "fl_sub rnd x y = fl_add rnd x (fl_neg y)"

fun fl_mul :: "(rat \<Rightarrow> fl) \<Rightarrow> fl \<Rightarrow> fl \<Rightarrow> fl" where
  "fl_mul rnd (Fin a) (Fin b) = rnd (a * b)"
| "fl_mul rnd NaN y = NaN"
| "fl_mul rnd x NaN = NaN"
| "fl_mul rnd (Fin a) PInf = (if a = 0 then NaN else if 0 < a then PInf else NInf)"
| "fl_mul rnd (Fin a) NInf = (if a = 0 then NaN else if 0 < a then NInf else PInf)"
| "fl_mul rnd PInf (Fin b) = (if b = 0 then NaN else if 0 < b then PInf else NInf)"
| "fl_mul rnd NInf (Fin b) = (if b = 0 then NaN else if 0 < b then NInf else PInf)"
| "fl_mul rnd PInf PInf = PInf"
| "fl_mul rnd PInf NInf = NInf"
| "fl_mul rnd NInf PInf = NInf"
| "fl_mul rnd NInf NInf = PInf"

fun fl_div :: "(rat \<Rightarrow> fl) \<Rightarrow> fl \<Rightarrow> fl \<Rightarrow> fl" where
  "fl_div rnd (Fin a) (Fin b) =
     (if b = 0 then (if a = 0 then NaN else if 0 < a then PInf else NInf) else rnd (a / b))"
| "fl_div rnd NaN y = NaN"
| "fl_div rnd x NaN = NaN"
| "fl_div rnd (Fin a) PInf = Fin 0"
| "fl_div rnd (Fin a) NInf = Fin 0"
| "fl_div rnd PInf (Fin b) = (if 0 \<le> b then PInf else NInf)"
| "fl_div rnd NInf (Fin b) = (if 0 \<le> b then NInf else PInf)"
| "fl_div rnd PInf PInf = NaN"
| "fl_div rnd PInf NInf = NaN"
| "fl_div rnd NInf PInf = NaN"
| "fl_div rnd NInf NInf = NaN"

text \<open>The comparison \<open><\<close>: false when either side is NaN.\<close>

fun fl_less :: "fl \<Rightarrow> fl \<Rightarrow> bool" where
  "fl_less (Fin a) (Fin b) = (a < b)"
| "fl_less NaN y = False"
| "fl_less x NaN = False"
| "fl_less x NInf = False"
| "fl_less PInf y = False"
| "fl_less NInf y = True"
| "fl_less x PInf = True"

text \<open>
  \<open>fmod x y\<close> of the C library on \<open>double\<close>: for finite \<open>x\<close> and nonzero finite \<open>y\<close>, \<open>x\<close>
  minus \<open>y\<close> times the quotient truncated towards zero, which is exact; \<open>x\<close> itself for
  finite \<open>x\<close> and infinite \<open>y\<close>; NaN when \<open>y\<close> is zero, when \<open>x\<close> is infinite, and when
  either is NaN.
\<close>

fun fmod :: "fl \<Rightarrow> fl \<Rightarrow> fl" where
  "fmod (Fin x) (Fin y) =
     (if y = 0 then NaN
      else Fin (x - of_int (if 0 \<le> x / y then \<lfloor>x / y\<rfloor> else \<lceil>x / y\<rceil>) * y))"
| "fmod (Fin x) PInf = Fin x"
| "fmod (Fin x) NInf = Fin x"
| "fmod x y = NaN"

text \<open>
  What stops a run: dereferencing the null \<open>scene\<close> pointer, indexing a vector or
  array out of range, and a failing \<open>assert\<close> (the build is a Debug build).
\<close>

datatype error = NullPointer | OutOfRange | AssertionFailed

definition nth_chk :: "'a list \<Rightarrow> nat \<Rightarrow> error + 'a" where
  "nth_chk xs i = (if i < length xs then Inr (xs ! i) else Inl OutOfRange)"

type_synonym vec2 = "float \<times> float"
type_synonym vec3 = "float \<times> float \<times> float"

text \<open>A vector the program has computed.\<close>

type_synonym fvec3 = "fl \<times> fl \<times> fl"

text \<open>\<open>glm::vec4\<close> and \<open>glm::ivec4\<close>: exactly four components, read and written by index.\<close>

datatype 'a vec4 = Vec4 'a 'a 'a 'a

fun vget :: "'a vec4 \<Rightarrow> nat \<Rightarrow> 'a" where
  "vget (Vec4 a b c d) g = (if g = 0 then a else if g = 1 then b else if g = 2 then c else d)"

fun vset :: "'a vec4 \<Rightarrow> nat \<Rightarrow> 'a \<Rightarrow> 'a vec4" where
  "vset (Vec4 a b c d) g x =
     (if g = 0 then Vec4 x b c d else if g = 1 then Vec4 a x c d
      else if g = 2 then Vec4 a b x d else Vec4 a b c x)"

text \<open>An \<open>unsigned int\<close> bone index assigned to an \<open>int\<close> component of \<open>BoneIDs\<close>.\<close>

definition to_int32 :: "nat \<Rightarrow> int" where
  "to_int32 b = (if b mod 2 ^ 32 < 2 ^ 31 then int (b mod 2 ^ 32) else int (b mod 2 ^ 32) - 2 ^ 32)"

section \<open>mesh.hpp\<close>

definition NUM_BONES_PER_VERTEX :: nat where
  "NUM_BONES_PER_VERTEX = 4"

record Vertex =
  Position :: vec3
  Normal :: vec3
  TexCoords :: vec2
  BoneIDs :: "int vec4"
  BoneWeights :: "float vec4"

record Texture =
  ID :: nat
  Type :: string
  Path :: string

text \<open>A \<open>Mesh\<close> keeps the three vectors it is constructed from (its buffer handles are
  OpenGL state and are left out).\<close>

record Mesh =
  vertices :: "Vertex list"
  indices :: "nat list"
  textures :: "Texture list"

section \<open>The imported scene\<close>

text \<open>
  The scene types are declared by the importer library; they are modelled by the
  fields the source reads.  Element counts (\<open>mNumBones\<close>, \<open>mNumPositionKeys\<close>, ...)
  are the lengths of the lists.  The matrix type \<open>'m\<close> and the quaternion type \<open>'q\<close>
  are left open: the source only multiplies matrices and hands quaternions to library
  functions.
\<close>

record 'v aiKey =
  mTime :: double
  mValue :: 'v

record 'q aiNodeAnim =
  mNodeName :: string
  mPositionKeys :: "vec3 aiKey list"
  mRotationKeys :: "'q aiKey list"
  mScalingKeys :: "vec3 aiKey list"

record 'q aiAnimation =
  mTicksPerSecond :: double
  mChannels :: "'q aiNodeAnim list"

datatype 'm aiNode =
  aiNode (mName: string) (mTransformation: 'm) (mMeshes: "nat list") (mChildren: "'m aiNode list")

record aiVertexWeight =
  mVertexId :: nat
  mWeight :: float

text \<open>The bone's \<open>mName\<close> is the field \<open>mBoneName\<close> here (the node's selector has the name).\<close>

record 'm aiBone =
  mBoneName :: string
  mOffsetMatrix :: 'm
  mWeights :: "aiVertexWeight list"

datatype aiTextureType =
  aiTextureType_DIFFUSE | aiTextureType_SPECULAR | aiTextureType_HEIGHT | aiTextureType_EMISSIVE

text \<open>A material, as far as the source reads it: the texture paths of each type
  (\<open>GetTextureCount\<close> is the length, \<open>GetTexture\<close> the element).\<close>

type_synonym aiMaterial = "aiTextureType \<Rightarrow> string list"

record 'm aiMesh =
  mVertices :: "vec3 list"
  mNormals :: "vec3 list option"
  mTextureCoords0 :: "vec3 list option"
  mBones :: "'m aiBone list"
  mFaces :: "nat list list"
  mMaterialIndex :: nat

record ('q, 'm) aiScene =
  mRootNode :: "'m aiNode"
  mMeshes :: "'m aiMesh list"
  mMaterials :: "aiMaterial list"
  mAnimations :: "'q aiAnimation list"

section \<open>The model\<close>

record 'm BoneMatrix =
  BoneOffset :: 'm
  FinalTransformation :: 'm

record ('q, 'm) Model =
  scene :: "('q, 'm) aiScene option"
  directory :: string
  meshes :: "Mesh list"
  loadedTextures :: "Texture list"
  globalInverseTransform :: 'm
  ticksPerSecond :: fl
  animDuration :: double
  currentAnimation :: nat
  bonesCount :: nat
  boneMapping :: "string \<rightharpoonup> nat"
  boneMatrices :: "'m BoneMatrix list"

text \<open>The constructor \<open>Model()\<close>.  The matrix member \<open>globalInverseTransform\<close> has no
  initialiser; what it holds before \<open>InitFromScene\<close> is the parameter \<open>g0\<close>.\<close>

definition Model_new :: "'m \<Rightarrow> ('q, 'm) Model" where
  "Model_new g0 =
     \<lparr>scene = None, directory = [], meshes = [], loadedTextures = [],
      globalInverseTransform = g0, ticksPerSecond = Fin 0, animDuration = 0,
      currentAnimation = 0, bonesCount = 0, boneMapping = Map.empty, boneMatrices = []\<rparr>"

definition SetDirectory :: "('q, 'm) Model \<Rightarrow> string \<Rightarrow> ('q, 'm) Model" where
  "SetDirectory m dir = m\<lparr>directory := dir\<rparr>"

definition GetNumAnimations :: "('q, 'm) Model \<Rightarrow> error + nat" where
  "GetNumAnimations m =
     (case scene m of None \<Rightarrow> Inl NullPointer | Some sc \<Rightarrow> Inr (length (mAnimations sc)))"

definition SetAnimation :: "('q, 'm) Model \<Rightarrow> nat \<Rightarrow> error + ('q, 'm) Model" where
  "SetAnimation m animation =
     (case GetNumAnimations m of
        Inl e \<Rightarrow> Inl e
      | Inr n \<Rightarrow> Inr (if 0 \<le> animation \<and> animation < n then m\<lparr>currentAnimation := animation\<rparr> else m))"

section \<open>Mesh construction: vertices and bone binding\<close>

text \<open>
  One round of the vertex loop of \<open>processMesh\<close>.  \<open>Vertex vertex;\<close> default-constructs
  the record; what the default construction leaves in the fields is the parameter
  \<open>fresh\<close> (per vertex number).  The loop then assigns \<open>Position\<close>, \<open>Normal\<close> when the
  mesh has normals, \<open>TexCoords\<close>, and sets all four \<open>BoneWeights\<close> to zero.  \<open>BoneIDs\<close>
  is not assigned.
\<close>

definition makeVertex :: "(nat \<Rightarrow> Vertex) \<Rightarrow> 'm aiMesh \<Rightarrow> nat \<Rightarrow> error + Vertex" where
  "makeVertex fresh mesh i =
     (case nth_chk (mVertices mesh) i of
        Inl e \<Rightarrow> Inl e
      | Inr p \<Rightarrow>
          (case (case mNormals mesh of
                   None \<Rightarrow> Inr ((fresh i)\<lparr>Position := p\<rparr>)
                 | Some ns \<Rightarrow>
                     (case nth_chk ns i of
                        Inl e \<Rightarrow> Inl e
                      | Inr n \<Rightarrow> Inr ((fresh i)\<lparr>Position := p, Normal := n\<rparr>))) of
             Inl e \<Rightarrow> Inl e
           | Inr vertex \<Rightarrow>
               (case (case mTextureCoords0 mesh of
                        None \<Rightarrow> Inr (vertex\<lparr>TexCoords := (0, 0)\<rparr>)
                      | Some ts \<Rightarrow>
                          (case nth_chk ts i of
                             Inl e \<Rightarrow> Inl e
                           | Inr (x, y, z) \<Rightarrow> Inr (vertex\<lparr>TexCoords := (x, y)\<rparr>))) of
                  Inl e \<Rightarrow> Inl e
                | Inr vertex \<Rightarrow> Inr (vertex\<lparr>BoneWeights := Vec4 0 0 0 0\<rparr>))))"

fun makeVertices :: "(nat \<Rightarrow> Vertex) \<Rightarrow> 'm aiMesh \<Rightarrow> nat list \<Rightarrow> Vertex list \<Rightarrow> error + Vertex list" where
  "makeVertices fresh mesh [] vs = Inr vs"
| "makeVertices fresh mesh (i # is) vs =
     (case makeVertex fresh mesh i of
        Inl e \<Rightarrow> Inl e
      | Inr vertex \<Rightarrow> makeVertices fresh mesh is (vs @ [vertex]))"

text \<open>The innermost loop \<open>for g\<close> with its \<open>break\<close>, started at \<open>g\<close>: the record goes to
  the first slot from \<open>g\<close> on whose weight compares equal to zero.\<close>

function storeInfluence :: "nat \<Rightarrow> nat \<Rightarrow> float \<Rightarrow> Vertex \<Rightarrow> Vertex" where
  "storeInfluence g boneIndex weight v =
     (if g < NUM_BONES_PER_VERTEX then
        (if vget (BoneWeights v) g = 0 then
           v\<lparr>BoneIDs := vset (BoneIDs v) g (to_int32 boneIndex),
             BoneWeights := vset (BoneWeights v) g weight\<rparr>
         else storeInfluence (g + 1) boneIndex weight v)
      else v)"
  by pat_completeness auto
termination
  by (relation "measure (\<lambda>(g, boneIndex, weight, v). NUM_BONES_PER_VERTEX - g)") auto

declare storeInfluence.simps [simp del]

text \<open>The loop \<open>for j\<close> over the weights of one bone.\<close>

fun processWeights :: "nat \<Rightarrow> aiVertexWeight list \<Rightarrow> Vertex list \<Rightarrow> error + Vertex list" where
  "processWeights boneIndex [] vs = Inr vs"
| "processWeights boneIndex (w # ws) vs =
     (let vertexID = mVertexId w; weight = mWeight w in
      if vertexID < length vs then
        processWeights boneIndex ws (vs[vertexID := storeInfluence 0 boneIndex weight (vs ! vertexID)])
      else Inl OutOfRange)"

text \<open>
  The head of the loop \<open>for i\<close> over the bones: the index of the bone, allocated when
  the name is not in \<open>boneMapping\<close>.  \<open>boneMatrices[boneIndex]\<close> after the
  \<open>push_back\<close> is out of range only when \<open>bonesCount\<close> exceeds the vector's size.
\<close>

definition bindBone :: "('q, 'm::zero) Model \<Rightarrow> 'm aiBone \<Rightarrow> error + nat \<times> ('q, 'm) Model" where
  "bindBone m bone =
     (let boneName = mBoneName bone in
      case boneMapping m boneName of
        None \<Rightarrow>
          (let boneIndex = bonesCount m;
               m1 = m\<lparr>bonesCount := (bonesCount m + 1) mod 2 ^ 32\<rparr>;
               m2 = m1\<lparr>boneMatrices := boneMatrices m1 @ [\<lparr>BoneOffset = 0, FinalTransformation = 0\<rparr>]\<rparr>
           in if boneIndex < length (boneMatrices m2) then
                Inr (boneIndex,
                     m2\<lparr>boneMatrices :=
                          (boneMatrices m2)[boneIndex :=
                             (boneMatrices m2 ! boneIndex)\<lparr>BoneOffset := mOffsetMatrix bone\<rparr>],
                        boneMapping := (boneMapping m2)(boneName \<mapsto> boneIndex)\<rparr>)
              else Inl OutOfRange)
      | Some boneIndex \<Rightarrow> Inr (boneIndex, m))"

text \<open>The whole loop over the bones of a mesh: bind, then store the bone's weights.\<close>

fun processBones ::
  "('q, 'm::zero) Model \<Rightarrow> 'm aiBone list \<Rightarrow> Vertex list \<Rightarrow> error + ('q, 'm) Model \<times> Vertex list" where
  "processBones m [] vs = Inr (m, vs)"
| "processBones m (bone # bones) vs =
     (case bindBone m bone of
        Inl e \<Rightarrow> Inl e
      | Inr (boneIndex, m') \<Rightarrow>
          (case processWeights boneIndex (mWeights bone) vs of
             Inl e \<Rightarrow> Inl e
           | Inr vs' \<Rightarrow> processBones m' bones vs'))"

text \<open>The indices the bone loop assigns, without the weights: the registry side of
  \<open>processBones\<close> alone.\<close>

fun bindAll :: "('q, 'm::zero) Model \<Rightarrow> 'm aiBone list \<Rightarrow> error + nat list \<times> ('q, 'm) Model" where
  "bindAll m [] = Inr ([], m)"
| "bindAll m (bone # bones) =
     (case bindBone m bone of
        Inl e \<Rightarrow> Inl e
      | Inr (boneIndex, m') \<Rightarrow>
          (case bindAll m' bones of
             Inl e \<Rightarrow> Inl e
           | Inr (is, m'') \<Rightarrow> Inr (boneIndex # is, m'')))"

section \<open>Keyframe sampling\<close>

text \<open>
  The functions of GLM and of the importer library that the evaluator calls are not part
  of this repository; they are the fields of a \<open>library\<close>.  Matrices are multiplied
  with \<open>*\<close>, \<open>glm::mat4(1.0f)\<close> is \<open>1\<close> and \<open>glm::mat4(0.0f)\<close> is \<open>0\<close>; no law of
  arithmetic is assumed of them.  The scene's matrices are taken as \<open>mat4Convert\<close>
  returns them, and quaternions as \<open>quatConvert\<close> returns them.
\<close>

record ('q, 'm) library =
  glm_translate :: "'m \<Rightarrow> fvec3 \<Rightarrow> 'm"
  glm_scale :: "'m \<Rightarrow> fvec3 \<Rightarrow> 'm"
  glm_toMat4 :: "'q \<Rightarrow> 'm"
  glm_inverse :: "'m \<Rightarrow> 'm"
  Interpolate :: "'q \<Rightarrow> 'q \<Rightarrow> float \<Rightarrow> 'q"
  Normalize :: "'q \<Rightarrow> 'q"

text \<open>A key's value, copied.\<close>

fun vfin :: "vec3 \<Rightarrow> fvec3" where
  "vfin (a, b, c) = (Fin a, Fin b, Fin c)"

text \<open>The operators of \<open>aiVector3D\<close> as the source applies them, each component computed
  in \<open>float\<close>: \<open>end - start\<close>, \<open>factor * delta\<close> and \<open>start + ...\<close>.\<close>

fun vsub :: "vec3 \<Rightarrow> vec3 \<Rightarrow> fvec3" where
  "vsub (a, b, c) (x, y, z) =
     (fl_sub f32 (Fin a) (Fin x), fl_sub f32 (Fin b) (Fin y), fl_sub f32 (Fin c) (Fin z))"

fun vscale :: "float \<Rightarrow> fvec3 \<Rightarrow> fvec3" where
  "vscale f (x, y, z) = (fl_mul f32 (Fin f) x, fl_mul f32 (Fin f) y, fl_mul f32 (Fin f) z)"

fun vadd :: "vec3 \<Rightarrow> fvec3 \<Rightarrow> fvec3" where
  "vadd (a, b, c) (x, y, z) = (fl_add f32 (Fin a) x, fl_add f32 (Fin b) y, fl_add f32 (Fin c) z)"

text \<open>\<open>animationTime < (float) t\<close>.\<close>

definition time_less :: "fl \<Rightarrow> double \<Rightarrow> bool" where
  "time_less animationTime t = fl_less animationTime (f32 t)"

text \<open>
  The search loop that \<open>findPosition\<close>, \<open>findRotation\<close> and \<open>findScaling\<close> each
  contain, over the timestamps of the track and started at \<open>i\<close>; falling out of the loop
  reaches \<open>assert(0)\<close>.
\<close>

function findKey :: "fl \<Rightarrow> double list \<Rightarrow> nat \<Rightarrow> error + nat" where
  "findKey animationTime ts i =
     (if i < length ts - 1 then
        (if time_less animationTime (ts ! (i + 1)) then Inr i
         else findKey animationTime ts (i + 1))
      else Inl AssertionFailed)"
  by pat_completeness auto
termination
  by (relation "measure (\<lambda>(animationTime, ts, i). length ts - i)") auto

declare findKey.simps [simp del]

text \<open>\<open>findPosition\<close> has no assertion on the key count: with no key the unsigned bound
  \<open>mNumPositionKeys - 1\<close> wraps and the first round reads past the array.\<close>

definition findPosition :: "fl \<Rightarrow> 'q aiNodeAnim \<Rightarrow> error + nat" where
  "findPosition animationTime nodeAnim =
     (if mPositionKeys nodeAnim = [] then Inl OutOfRange
      else findKey animationTime (map mTime (mPositionKeys nodeAnim)) 0)"

definition findRotation :: "fl \<Rightarrow> 'q aiNodeAnim \<Rightarrow> error + nat" where
  "findRotation animationTime nodeAnim =
     (if \<not> 0 < length (mRotationKeys nodeAnim) then Inl AssertionFailed
      else findKey animationTime (map mTime (mRotationKeys nodeAnim)) 0)"

definition findScaling :: "fl \<Rightarrow> 'q aiNodeAnim \<Rightarrow> error + nat" where
  "findScaling animationTime nodeAnim =
     (if \<not> 0 < length (mScalingKeys nodeAnim) then Inl AssertionFailed
      else findKey animationTime (map mTime (mScalingKeys nodeAnim)) 0)"

text \<open>
  The interpolation factor, as each \<open>calcInterpolated...\<close> computes it from the index
  found: the next index is asserted to exist, \<open>deltaTime\<close> is a \<open>double\<close> difference
  stored in a \<open>float\<close>, and the factor is asserted to lie in \<open>[0, 1]\<close>: an infinite or NaN
  factor fails the assertion.
\<close>

definition keyFactor :: "fl \<Rightarrow> double list \<Rightarrow> nat \<Rightarrow> error + float" where
  "keyFactor animationTime ts index =
     (let nextIndex = index + 1 in
      if \<not> nextIndex < length ts then Inl AssertionFailed
      else
        (let deltaTime = to_float (fl_sub f64 (Fin (ts ! nextIndex)) (Fin (ts ! index)));
             factor = fl_div f32 (fl_sub f32 animationTime (f32 (ts ! index))) deltaTime
         in case factor of
              Fin f \<Rightarrow> (if 0 \<le> f \<and> f \<le> 1 then Inr f else Inl AssertionFailed)
            | PInf \<Rightarrow> Inl AssertionFailed
            | NInf \<Rightarrow> Inl AssertionFailed
            | NaN \<Rightarrow> Inl AssertionFailed))"

definition calcInterpolatedPosition :: "fl \<Rightarrow> 'q aiNodeAnim \<Rightarrow> error + fvec3" where
  "calcInterpolatedPosition animationTime nodeAnim =
     (let keys = mPositionKeys nodeAnim in
      if length keys = 1 then Inr (vfin (mValue (keys ! 0)))
      else
        (case findPosition animationTime nodeAnim of
           Inl e \<Rightarrow> Inl e
         | Inr positionIndex \<Rightarrow>
             (case keyFactor animationTime (map mTime keys) positionIndex of
                Inl e \<Rightarrow> Inl e
              | Inr factor \<Rightarrow>
                  (let start = mValue (keys ! positionIndex);
                       end = mValue (keys ! (positionIndex + 1));
                       delta = vsub end start
                   in Inr (vadd start (vscale factor delta))))))"

definition calcInterpolatedRotation ::
  "('q, 'm) library \<Rightarrow> fl \<Rightarrow> 'q aiNodeAnim \<Rightarrow> error + 'q" where
  "calcInterpolatedRotation L animationTime nodeAnim =
     (let keys = mRotationKeys nodeAnim in
      if length keys = 1 then Inr (mValue (keys ! 0))
      else
        (case findRotation animationTime nodeAnim of
           Inl e \<Rightarrow> Inl e
         | Inr rotationIndex \<Rightarrow>
             (case keyFactor animationTime (map mTime keys) rotationIndex of
                Inl e \<Rightarrow> Inl e
              | Inr factor \<Rightarrow>
                  (let startRotationQ = mValue (keys ! rotationIndex);
                       endRotationQ = mValue (keys ! (rotationIndex + 1))
                   in Inr (Normalize L (Interpolate L startRotationQ endRotationQ factor))))))"

definition calcInterpolatedScaling :: "fl \<Rightarrow> 'q aiNodeAnim \<Rightarrow> error + fvec3" where
  "calcInterpolatedScaling animationTime nodeAnim =
     (let keys = mScalingKeys nodeAnim in
      if length keys = 1 then Inr (vfin (mValue (keys ! 0)))
      else
        (case findScaling animationTime nodeAnim of
           Inl e \<Rightarrow> Inl e
         | Inr scalingIndex \<Rightarrow>
             (case keyFactor animationTime (map mTime keys) scalingIndex of
                Inl e \<Rightarrow> Inl e
              | Inr factor \<Rightarrow>
                  (let start = mValue (keys ! scalingIndex);
                       end = mValue (keys ! (scalingIndex + 1));
                       delta = vsub end start
                   in Inr (vadd start (vscale factor delta))))))"

fun findNodeAnim :: "'q aiNodeAnim list \<Rightarrow> string \<Rightarrow> 'q aiNodeAnim option" where
  "findNodeAnim [] nodeName = None"
| "findNodeAnim (nodeAnim # channels) nodeName =
     (if mNodeName nodeAnim = nodeName then Some nodeAnim else findNodeAnim channels nodeName)"

section \<open>The skeleton evaluator\<close>

text \<open>
  \<open>readNodeHeirarchy\<close>, with the model passed in and returned; \<open>readChildren\<close> is its
  closing loop over \<open>mChildren\<close>.  The scaling is sampled first, then the rotation, then
  the position, as in the source.
\<close>

fun readNodeHeirarchy ::
    "('q, 'm::{times,one,zero}) library \<Rightarrow> ('q, 'm) Model \<Rightarrow> fl \<Rightarrow> 'm aiNode \<Rightarrow> 'm
       \<Rightarrow> error + ('q, 'm) Model"
  and readChildren ::
    "('q, 'm) library \<Rightarrow> ('q, 'm) Model \<Rightarrow> fl \<Rightarrow> 'm aiNode list \<Rightarrow> 'm
       \<Rightarrow> error + ('q, 'm) Model" where
  "readNodeHeirarchy L m animationTime (aiNode nodeName transformation ms children) parentTransform =
     (case scene m of
        None \<Rightarrow> Inl NullPointer
      | Some sc \<Rightarrow>
          (case nth_chk (mAnimations sc) (currentAnimation m) of
             Inl e \<Rightarrow> Inl e
           | Inr animation \<Rightarrow>
               (case (case findNodeAnim (mChannels animation) nodeName of
                        None \<Rightarrow> Inr transformation
                      | Some nodeAnim \<Rightarrow>
                          (case calcInterpolatedScaling animationTime nodeAnim of
                             Inl e \<Rightarrow> Inl e
                           | Inr scaling \<Rightarrow>
                               (case calcInterpolatedRotation L animationTime nodeAnim of
                                  Inl e \<Rightarrow> Inl e
                                | Inr rotationQ \<Rightarrow>
                                    (case calcInterpolatedPosition animationTime nodeAnim of
                                       Inl e \<Rightarrow> Inl e
                                     | Inr translation \<Rightarrow>
                                         (let scalingM = glm_scale L 1 scaling;
                                              rotationM = glm_toMat4 L rotationQ;
                                              translationM = glm_translate L 1 translation
                                          in Inr (translationM * rotationM * scalingM)))))) of
                  Inl e \<Rightarrow> Inl e
                | Inr nodeTransformation \<Rightarrow>
                    (let globalTransformation = parentTransform * nodeTransformation in
                     case (case boneMapping m nodeName of
                             None \<Rightarrow> Inr m
                           | Some boneIndex \<Rightarrow>
                               (if boneIndex < length (boneMatrices m) then
                                  Inr (m\<lparr>boneMatrices :=
                                         (boneMatrices m)[boneIndex :=
                                            (boneMatrices m ! boneIndex)
                                              \<lparr>FinalTransformation :=
                                                 globalInverseTransform m * globalTransformation
                                                   * BoneOffset (boneMatrices m ! boneIndex)\<rparr>]\<rparr>)
                                else Inl OutOfRange)) of
                       Inl e \<Rightarrow> Inl e
                     | Inr m' \<Rightarrow> readChildren L m' animationTime children globalTransformation))))"
| "readChildren L m animationTime [] globalTransformation = Inr m"
| "readChildren L m animationTime (child # children) globalTransformation =
     (case readNodeHeirarchy L m animationTime child globalTransformation of
        Inl e \<Rightarrow> Inl e
      | Inr m' \<Rightarrow> readChildren L m' animationTime children globalTransformation)"

text \<open>
  The first lines of \<open>boneTransform\<close>: the duration it stores in \<open>animDuration\<close>, and
  the animation time it hands to \<open>readNodeHeirarchy\<close>.  With no position key in
  channel 0 the unsigned index \<open>numPosKeys - 1\<close> wraps and the read is out of range.
\<close>

definition boneTransform_time :: "('q, 'm) Model \<Rightarrow> float \<Rightarrow> error + double \<times> fl" where
  "boneTransform_time m timeInSeconds =
     (case scene m of
        None \<Rightarrow> Inl NullPointer
      | Some sc \<Rightarrow>
          (case nth_chk (mAnimations sc) (currentAnimation m) of
             Inl e \<Rightarrow> Inl e
           | Inr animation \<Rightarrow>
               (case nth_chk (mChannels animation) 0 of
                  Inl e \<Rightarrow> Inl e
                | Inr channel \<Rightarrow>
                    (let numPosKeys = length (mPositionKeys channel) in
                     case nth_chk (mPositionKeys channel) ((numPosKeys + 2 ^ 32 - 1) mod 2 ^ 32) of
                       Inl e \<Rightarrow> Inl e
                     | Inr key \<Rightarrow>
                         (let duration = mTime key;
                              ticksPerSecond =
                                f32 (if mTicksPerSecond animation \<noteq> 0 then mTicksPerSecond animation
                                     else 25);
                              timeInTicks = fl_mul f32 (Fin timeInSeconds) ticksPerSecond;
                              animationTime = to_float (fmod timeInTicks (Fin duration))
                          in Inr (duration, animationTime))))))"

definition boneTransform ::
  "('q, 'm::{times,one,zero}) library \<Rightarrow> ('q, 'm) Model \<Rightarrow> float \<Rightarrow> error + ('q, 'm) Model \<times> 'm list" where
  "boneTransform L m timeInSeconds =
     (case boneTransform_time m timeInSeconds of
        Inl e \<Rightarrow> Inl e
      | Inr (duration, animationTime) \<Rightarrow>
          (case scene m of
             None \<Rightarrow> Inl NullPointer
           | Some sc \<Rightarrow>
               (case readNodeHeirarchy L (m\<lparr>animDuration := duration\<rparr>) animationTime (mRootNode sc) 1 of
                  Inl e \<Rightarrow> Inl e
                | Inr m' \<Rightarrow>
                    (if bonesCount m' \<le> length (boneMatrices m') then
                       Inr (m', map FinalTransformation (take (bonesCount m') (boneMatrices m')))
                     else Inl OutOfRange))))"

section \<open>Textures\<close>

text \<open>
  What \<open>TextureFromFile\<close> touches outside the model: the OpenGL texture names handed out
  so far (\<open>glGenTextures\<close> returns a name not in use, and never 0: here the next number),
  the images uploaded, and the lines written to \<open>std::cout\<close>.  The image decoder is
  the parameter \<open>stbi_load\<close>: for a path, the width, height and component count of the
  decoded image, or \<open>None\<close> (a null pointer) when the file is missing or unreadable.
\<close>

datatype GLenum = GL_RED | GL_RGB | GL_RGBA

record World =
  texNames :: nat
  texImages :: "(nat \<times> GLenum \<times> nat \<times> nat) list"
  cout :: "string list"

type_synonym stbi = "string \<Rightarrow> (nat \<times> nat \<times> int) option"

definition TextureFromFile :: "stbi \<Rightarrow> World \<Rightarrow> string \<Rightarrow> string \<Rightarrow> nat \<times> World" where
  "TextureFromFile stbi_load w filename dir =
     (let path = dir @ ''/'' @ filename;
          textureID = texNames w + 1;
          w1 = w\<lparr>texNames := textureID\<rparr>
      in case stbi_load path of
           Some (width, height, nrComponents) \<Rightarrow>
             (let format =
                    (if nrComponents = 1 then GL_RED
                     else if nrComponents = 3 then GL_RGB
                     else if nrComponents = 4 then GL_RGBA
                     else GL_RED)
              in (textureID, w1\<lparr>texImages := texImages w1 @ [(textureID, format, width, height)]\<rparr>))
         | None \<Rightarrow>
             (textureID, w1\<lparr>cout := cout w1 @ [''Texture failed to load at path: '' @ path]\<rparr>))"

text \<open>The inner loop \<open>for j\<close> of \<open>loadMaterialTextures\<close>: the first loaded texture with the
  same path.\<close>

fun findLoaded :: "Texture list \<Rightarrow> string \<Rightarrow> Texture option" where
  "findLoaded [] str = None"
| "findLoaded (t # ts) str = (if Path t = str then Some t else findLoaded ts str)"

text \<open>The outer loop \<open>for i\<close> over the texture paths of one type.\<close>

fun loadTextures ::
  "stbi \<Rightarrow> string \<Rightarrow> string list \<Rightarrow> ('q, 'm) Model \<Rightarrow> World \<Rightarrow> Texture list
     \<Rightarrow> ('q, 'm) Model \<times> World \<times> Texture list" where
  "loadTextures stbi_load typeName [] m w ts = (m, w, ts)"
| "loadTextures stbi_load typeName (str # strs) m w ts =
     (case findLoaded (loadedTextures m) str of
        Some t \<Rightarrow> loadTextures stbi_load typeName strs m w (ts @ [t])
      | None \<Rightarrow>
          (case TextureFromFile stbi_load w str (directory m) of
             (textureID, w') \<Rightarrow>
               (let texture = \<lparr>ID = textureID, Type = typeName, Path = str\<rparr>
                in loadTextures stbi_load typeName strs
                     (m\<lparr>loadedTextures := loadedTextures m @ [texture]\<rparr>) w' (ts @ [texture]))))"

definition loadMaterialTextures ::
  "stbi \<Rightarrow> ('q, 'm) Model \<Rightarrow> World \<Rightarrow> aiMaterial \<Rightarrow> aiTextureType \<Rightarrow> string
     \<Rightarrow> ('q, 'm) Model \<times> World \<times> Texture list" where
  "loadMaterialTextures stbi_load m w mat type typeName =
     loadTextures stbi_load typeName (mat type) m w []"

section \<open>Mesh construction and loading\<close>

definition processMesh ::
  "(nat \<Rightarrow> Vertex) \<Rightarrow> stbi \<Rightarrow> ('q, 'm::zero) Model \<Rightarrow> World \<Rightarrow> 'm aiMesh
     \<Rightarrow> error + Mesh \<times> ('q, 'm) Model \<times> World" where
  "processMesh fresh stbi_load m w mesh =
     (case makeVertices fresh mesh [0..<length (mVertices mesh)] [] of
        Inl e \<Rightarrow> Inl e
      | Inr vs \<Rightarrow>
          (case processBones m (mBones mesh) vs of
             Inl e \<Rightarrow> Inl e
           | Inr (m1, vs1) \<Rightarrow>
               (case scene m1 of
                  None \<Rightarrow> Inl NullPointer
                | Some sc \<Rightarrow>
                    (case nth_chk (mMaterials sc) (mMaterialIndex mesh) of
                       Inl e \<Rightarrow> Inl e
                     | Inr material \<Rightarrow>
                         (case loadMaterialTextures stbi_load m1 w material
                                 aiTextureType_DIFFUSE ''texture_diffuse'' of
                            (m2, w2, diffuseMaps) \<Rightarrow>
                         (case loadMaterialTextures stbi_load m2 w2 material
                                 aiTextureType_SPECULAR ''texture_specular'' of
                            (m3, w3, specularMaps) \<Rightarrow>
                         (case loadMaterialTextures stbi_load m3 w3 material
                                 aiTextureType_HEIGHT ''texture_normal'' of
                            (m4, w4, normalMaps) \<Rightarrow>
                         (case loadMaterialTextures stbi_load m4 w4 material
                                 aiTextureType_EMISSIVE ''texture_emission'' of
                            (m5, w5, emissionMaps) \<Rightarrow>
                              Inr (\<lparr>vertices = vs1, indices = concat (mFaces mesh),
                                    textures = diffuseMaps @ specularMaps @ normalMaps @ emissionMaps\<rparr>,
                                   m5, w5)))))))))"

text \<open>The first loop of \<open>processNode\<close>, over the mesh numbers of the node.  The default
  construction of the vertices may differ from mesh to mesh: \<open>fresh\<close> takes the mesh
  number first.\<close>

fun processNodeMeshes ::
  "(nat \<Rightarrow> nat \<Rightarrow> Vertex) \<Rightarrow> stbi \<Rightarrow> nat list \<Rightarrow> ('q, 'm::zero) Model \<Rightarrow> World
     \<Rightarrow> error + ('q, 'm) Model \<times> World" where
  "processNodeMeshes fresh stbi_load [] m w = Inr (m, w)"
| "processNodeMeshes fresh stbi_load (i # is) m w =
     (case scene m of
        None \<Rightarrow> Inl NullPointer
      | Some sc \<Rightarrow>
          (case nth_chk (mMeshes sc) i of
             Inl e \<Rightarrow> Inl e
           | Inr mesh \<Rightarrow>
               (case processMesh (fresh i) stbi_load m w mesh of
                  Inl e \<Rightarrow> Inl e
                | Inr (me, m', w') \<Rightarrow>
                    processNodeMeshes fresh stbi_load is (m'\<lparr>meshes := meshes m' @ [me]\<rparr>) w')))"

fun processNode ::
    "(nat \<Rightarrow> nat \<Rightarrow> Vertex) \<Rightarrow> stbi \<Rightarrow> 'm aiNode \<Rightarrow> ('q, 'm::zero) Model \<Rightarrow> World
       \<Rightarrow> error + ('q, 'm) Model \<times> World"
  and processChildren ::
    "(nat \<Rightarrow> nat \<Rightarrow> Vertex) \<Rightarrow> stbi \<Rightarrow> 'm aiNode list \<Rightarrow> ('q, 'm) Model \<Rightarrow> World
       \<Rightarrow> error + ('q, 'm) Model \<times> World" where
  "processNode fresh stbi_load (aiNode nodeName transformation ms children) m w =
     (case processNodeMeshes fresh stbi_load ms m w of
        Inl e \<Rightarrow> Inl e
      | Inr (m', w') \<Rightarrow> processChildren fresh stbi_load children m' w')"
| "processChildren fresh stbi_load [] m w = Inr (m, w)"
| "processChildren fresh stbi_load (child # children) m w =
     (case processNode fresh stbi_load child m w of
        Inl e \<Rightarrow> Inl e
      | Inr (m', w') \<Rightarrow> processChildren fresh stbi_load children m' w')"

definition InitFromScene ::
  "('q, 'm::zero) library \<Rightarrow> (nat \<Rightarrow> nat \<Rightarrow> Vertex) \<Rightarrow> stbi \<Rightarrow> ('q, 'm) Model \<Rightarrow> World
     \<Rightarrow> ('q, 'm) aiScene \<Rightarrow> error + ('q, 'm) Model \<times> World" where
  "InitFromScene L fresh stbi_load m w sc =
     (let m1 = m\<lparr>scene := Some sc,
                 globalInverseTransform := glm_inverse L (mTransformation (mRootNode sc))\<rparr>
      in case (if mAnimations sc \<noteq> [] then
                 (case nth_chk (mAnimations sc) (currentAnimation m1) of
                    Inl e \<Rightarrow> Inl e
                  | Inr animation \<Rightarrow>
                      Inr (if mTicksPerSecond animation \<noteq> 0 then f32 (mTicksPerSecond animation)
                           else Fin 25))
               else Inr (Fin 25)) of
           Inl e \<Rightarrow> Inl e
         | Inr tps \<Rightarrow> processNode fresh stbi_load (mRootNode sc) (m1\<lparr>ticksPerSecond := tps\<rparr>) w)"
section \<open>Notions of the specification\<close>

text \<open>
  The definitions of this section are not translated from the source: they say in the
  specification's words what the theorems below compare the source with.

  \<open>spec_store\<close>: a skinning record goes to the first of the four influence slots whose
  weight is 0, and is dropped when there is none.
\<close>

definition spec_store :: "nat \<Rightarrow> float \<Rightarrow> Vertex \<Rightarrow> Vertex" where
  "spec_store boneIndex weight v =
     (case find (\<lambda>g. vget (BoneWeights v) g = 0) [0..<4] of
        None \<Rightarrow> v
      | Some g \<Rightarrow> v\<lparr>BoneIDs := vset (BoneIDs v) g (to_int32 boneIndex),
                     BoneWeights := vset (BoneWeights v) g weight\<rparr>)"

text \<open>The skinning records \<open>(boneIndex, weight)\<close> that arrive for vertex \<open>v\<close> while the
  bones of a mesh are processed, in the order of arrival.\<close>

fun arrivals :: "('q, 'm::zero) Model \<Rightarrow> 'm aiBone list \<Rightarrow> nat \<Rightarrow> (nat \<times> float) list" where
  "arrivals m [] v = []"
| "arrivals m (bone # bones) v =
     (case bindBone m bone of
        Inl e \<Rightarrow> []
      | Inr (boneIndex, m') \<Rightarrow>
          map (\<lambda>w. (boneIndex, mWeight w)) (filter (\<lambda>w. mVertexId w = v) (mWeights bone))
            @ arrivals m' bones v)"

text \<open>The \<open>(index, weight)\<close> pairs of a vertex with a nonzero weight, in slot order.\<close>

definition influences :: "Vertex \<Rightarrow> (int \<times> float) list" where
  "influences v =
     filter (\<lambda>(i, w). w \<noteq> 0) (map (\<lambda>g. (vget (BoneIDs v) g, vget (BoneWeights v) g)) [0..<4])"

text \<open>The slots with a nonzero weight form a prefix: after a slot of weight 0 every slot
  has weight 0.\<close>

definition nonzero_prefix :: "Vertex \<Rightarrow> bool" where
  "nonzero_prefix v =
     (\<forall>g<NUM_BONES_PER_VERTEX. \<forall>h<NUM_BONES_PER_VERTEX.
        g < h \<longrightarrow> vget (BoneWeights v) g = 0 \<longrightarrow> vget (BoneWeights v) h = 0)"

text \<open>The bone registry counts its names, and has a matrix entry for every index.\<close>

definition registry_ok :: "('q, 'm) Model \<Rightarrow> bool" where
  "registry_ok m =
     (finite (dom (boneMapping m)) \<and> bonesCount m = card (dom (boneMapping m)) \<and>
      bonesCount m \<le> length (boneMatrices m))"

text \<open>The mesh returned by a run of \<open>processMesh\<close>, if it returned.\<close>

definition mesh_of :: "error + Mesh \<times> 'a \<Rightarrow> Mesh option" where
  "mesh_of r = (case r of Inl e \<Rightarrow> None | Inr (me, x) \<Rightarrow> Some me)"

text \<open>The model returned by a run of \<open>InitFromScene\<close> or \<open>boneTransform\<close>, if it returned.\<close>

definition model_of :: "error + ('q, 'm) Model \<times> 'a \<Rightarrow> ('q, 'm) Model option" where
  "model_of r = (case r of Inl e \<Rightarrow> None | Inr (m, x) \<Rightarrow> Some m)"

text \<open>
  The local transform of a node at an animation time: \<open>translate(T) * rotate(R) * scale(S)\<close>
  of the sampled position, rotation and scale when the clip has a channel for the node's
  name, the node's static transform otherwise.
\<close>

definition spec_local ::
  "('q, 'm::{times,one,zero}) library \<Rightarrow> 'q aiAnimation \<Rightarrow> fl \<Rightarrow> 'm aiNode \<Rightarrow> error + 'm" where
  "spec_local L animation t node =
     (case findNodeAnim (mChannels animation) (mName node) of
        None \<Rightarrow> Inr (mTransformation node)
      | Some nodeAnim \<Rightarrow>
          (case calcInterpolatedScaling t nodeAnim of
             Inl e \<Rightarrow> Inl e
           | Inr S \<Rightarrow>
               (case calcInterpolatedRotation L t nodeAnim of
                  Inl e \<Rightarrow> Inl e
                | Inr R \<Rightarrow>
                    (case calcInterpolatedPosition t nodeAnim of
                       Inl e \<Rightarrow> Inl e
                     | Inr T \<Rightarrow> Inr (glm_translate L 1 T * glm_toMat4 L R * glm_scale L 1 S)))))"

text \<open>
  The nodes of a tree in the order of the walk, each with its global transform: the
  parent's global transform times the node's local transform, the children taking the
  node's global transform as their parent's.
\<close>

fun spec_globals ::
    "('q, 'm::{times,one,zero}) library \<Rightarrow> 'q aiAnimation \<Rightarrow> fl \<Rightarrow> 'm aiNode \<Rightarrow> 'm
       \<Rightarrow> error + (string \<times> 'm) list"
  and spec_globals_list ::
    "('q, 'm) library \<Rightarrow> 'q aiAnimation \<Rightarrow> fl \<Rightarrow> 'm aiNode list \<Rightarrow> 'm
       \<Rightarrow> error + (string \<times> 'm) list" where
  "spec_globals L animation t (aiNode name tr ms children) parentGlobal =
     (case spec_local L animation t (aiNode name tr ms children) of
        Inl e \<Rightarrow> Inl e
      | Inr localTransform \<Rightarrow>
          (case spec_globals_list L animation t children (parentGlobal * localTransform) of
             Inl e \<Rightarrow> Inl e
           | Inr rest \<Rightarrow> Inr ((name, parentGlobal * localTransform) # rest)))"
| "spec_globals_list L animation t [] parentGlobal = Inr []"
| "spec_globals_list L animation t (child # children) parentGlobal =
     (case spec_globals L animation t child parentGlobal of
        Inl e \<Rightarrow> Inl e
      | Inr first \<Rightarrow>
          (case spec_globals_list L animation t children parentGlobal of
             Inl e \<Rightarrow> Inl e
           | Inr rest \<Rightarrow> Inr (first @ rest)))"

text \<open>The names of the nodes of a tree, in the order of the walk.\<close>

fun node_names :: "'m aiNode \<Rightarrow> string list" where
  "node_names (aiNode name tr ms children) = name # concat (map node_names children)"

text \<open>
  The write for one node: when its name is a registered bone with index \<open>i\<close>,
  \<open>finalTransformation[i] = globalInverseRootTransform * globalTransform * boneOffsetMatrix[i]\<close>.
\<close>

definition spec_write :: "('q, 'm::times) Model \<Rightarrow> string \<times> 'm \<Rightarrow> ('q, 'm) Model" where
  "spec_write m node =
     (case boneMapping m (fst node) of
        None \<Rightarrow> m
      | Some i \<Rightarrow>
          m\<lparr>boneMatrices :=
              (boneMatrices m)[i := (boneMatrices m ! i)
                 \<lparr>FinalTransformation :=
                    globalInverseTransform m * snd node * BoneOffset (boneMatrices m ! i)\<rparr>]\<rparr>)"

text \<open>Two models that differ at most in the \<open>FinalTransformation\<close> entries of their bone
  matrices.\<close>

definition only_finals :: "('q, 'm) Model \<Rightarrow> ('q, 'm) Model \<Rightarrow> bool" where
  "only_finals m m' =
     (m' = m\<lparr>boneMatrices := boneMatrices m'\<rparr> \<and>
      length (boneMatrices m') = length (boneMatrices m) \<and>
      map BoneOffset (boneMatrices m') = map BoneOffset (boneMatrices m))"

text \<open>Two models with the same scene, the same inverse root transform and the same
  current clip.\<close>

definition same_setup :: "('q, 'm) Model \<Rightarrow> ('q, 'm) Model \<Rightarrow> bool" where
  "same_setup m m' =
     (scene m' = scene m \<and> globalInverseTransform m' = globalInverseTransform m \<and>
      currentAnimation m' = currentAnimation m)"

text \<open>Two models with the same bone registry: count, name table and matrices.\<close>

definition same_registry :: "('q, 'm) Model \<Rightarrow> ('q, 'm) Model \<Rightarrow> bool" where
  "same_registry m m' =
     (bonesCount m' = bonesCount m \<and> boneMapping m' = boneMapping m \<and>
      boneMatrices m' = boneMatrices m)"

text \<open>
  The bones that loading a scene binds, in the order it binds them: \<open>processNode\<close> takes
  the meshes of a node in the order of the node's mesh numbers, each mesh's bones in
  their order, and then the children of the node in their order.
\<close>

fun node_bones :: "('q, 'm) aiScene \<Rightarrow> 'm aiNode \<Rightarrow> 'm aiBone list" where
  "node_bones sc (aiNode name tr ms children) =
     concat (map (\<lambda>i. mBones (mMeshes sc ! i)) ms) @ concat (map (node_bones sc) children)"

definition scene_bones :: "('q, 'm) aiScene \<Rightarrow> 'm aiBone list" where
  "scene_bones sc = node_bones sc (mRootNode sc)"

text \<open>Binding the bones \<open>bones\<close> one after the other from the registry of \<open>m\<close> returns, and
  gives the registry of \<open>m'\<close>.\<close>

definition binds :: "('q, 'm::zero) Model \<Rightarrow> 'm aiBone list \<Rightarrow> ('q, 'm) Model \<Rightarrow> bool" where
  "binds m bones m' = (\<exists>is mb. bindAll m bones = Inr (is, mb) \<and> same_registry mb m')"

section \<open>A sample scene\<close>

text \<open>
  Concrete inputs at which the theorems are instantiated.  In place of \<open>glm::mat4\<close> the
  sample library multiplies 2 by 2 matrices of rationals (the product does not commute),
  and quaternions are single rationals.
\<close>

datatype mat2 = Mat2 rat rat rat rat

instantiation mat2 :: "{times,one,zero}"
begin

fun times_mat2 :: "mat2 \<Rightarrow> mat2 \<Rightarrow> mat2" where
  "times_mat2 (Mat2 a b c d) (Mat2 e f g h) =
     Mat2 (a * e + b * g) (a * f + b * h) (c * e + d * g) (c * f + d * h)"

definition one_mat2 :: mat2 where
  "one_mat2 = Mat2 1 0 0 1"

definition zero_mat2 :: mat2 where
  "zero_mat2 = Mat2 0 0 0 0"

instance ..

end

fun mat2_inverse :: "mat2 \<Rightarrow> mat2" where
  "mat2_inverse (Mat2 a b c d) =
     Mat2 (d / (a * d - b * c)) (- b / (a * d - b * c)) (- c / (a * d - b * c)) (a / (a * d - b * c))"

text \<open>The sample library reads a finite component as it is, and any other as 0.\<close>

fun fl_value :: "fl \<Rightarrow> rat" where
  "fl_value (Fin a) = a"
| "fl_value PInf = 0"
| "fl_value NInf = 0"
| "fl_value NaN = 0"

definition sample_library :: "(rat, mat2) library" where
  "sample_library =
     \<lparr>glm_translate = (\<lambda>M v. M * Mat2 1 (fl_value (fst v)) 0 1),
      glm_scale = (\<lambda>M v. M * Mat2 (fl_value (fst v)) 0 0 (fl_value (fst (snd v)))),
      glm_toMat4 = (\<lambda>q. Mat2 0 (- q) q 0),
      glm_inverse = mat2_inverse,
      Interpolate = (\<lambda>p q f. p + f * (q - p)),
      Normalize = (\<lambda>q. q)\<rparr>"

definition sample_vertex :: "int \<Rightarrow> Vertex" where
  "sample_vertex i =
     \<lparr>Position = (9, 9, 9), Normal = (9, 9, 9), TexCoords = (9, 9),
      BoneIDs = Vec4 i i i i, BoneWeights = Vec4 9 9 9 9\<rparr>"

definition sample_mesh0 :: "mat2 aiMesh" where
  "sample_mesh0 =
     \<lparr>mVertices = [(0, 0, 0), (1, 0, 0)], mNormals = None, mTextureCoords0 = None,
      mBones =
        [\<lparr>mBoneName = ''hip'', mOffsetMatrix = Mat2 1 1 0 1,
          mWeights = [\<lparr>mVertexId = 0, mWeight = 1 / 2\<rparr>, \<lparr>mVertexId = 1, mWeight = 1\<rparr>]\<rparr>,
         \<lparr>mBoneName = ''knee'', mOffsetMatrix = Mat2 1 0 1 1,
          mWeights = [\<lparr>mVertexId = 0, mWeight = 1 / 4\<rparr>]\<rparr>],
      mFaces = [[0, 1, 0]], mMaterialIndex = 0\<rparr>"

definition sample_mesh1 :: "mat2 aiMesh" where
  "sample_mesh1 =
     \<lparr>mVertices = [(0, 1, 0)], mNormals = None, mTextureCoords0 = None,
      mBones =
        [\<lparr>mBoneName = ''knee'', mOffsetMatrix = Mat2 5 5 5 5,
          mWeights = [\<lparr>mVertexId = 0, mWeight = 0\<rparr>]\<rparr>],
      mFaces = [], mMaterialIndex = 0\<rparr>"

definition sample_material :: aiMaterial where
  "sample_material ty = (if ty = aiTextureType_DIFFUSE then [''skin.png'', ''lost.png''] else [])"

definition sample_clip0 :: "rat aiAnimation" where
  "sample_clip0 =
     \<lparr>mTicksPerSecond = 0,
      mChannels =
        [\<lparr>mNodeName = ''hip'',
          mPositionKeys = [\<lparr>mTime = 53, mValue = (2, 0, 0)\<rparr>],
          mRotationKeys = [\<lparr>mTime = 0, mValue = 1\<rparr>],
          mScalingKeys = [\<lparr>mTime = 0, mValue = (2, 3, 1)\<rparr>]\<rparr>,
         \<lparr>mNodeName = ''knee'',
          mPositionKeys = [\<lparr>mTime = 0, mValue = (1, 0, 0)\<rparr>],
          mRotationKeys = [\<lparr>mTime = 0, mValue = 1\<rparr>, \<lparr>mTime = 100, mValue = 3\<rparr>],
          mScalingKeys = [\<lparr>mTime = 0, mValue = (1, 1, 1)\<rparr>]\<rparr>]\<rparr>"

definition sample_clip1 :: "rat aiAnimation" where
  "sample_clip1 =
     \<lparr>mTicksPerSecond = 30,
      mChannels =
        [\<lparr>mNodeName = ''knee'',
          mPositionKeys = [\<lparr>mTime = 0, mValue = (1, 0, 0)\<rparr>, \<lparr>mTime = 10, mValue = (1, 0, 0)\<rparr>],
          mRotationKeys = [\<lparr>mTime = 0, mValue = 1\<rparr>],
          mScalingKeys = [\<lparr>mTime = 0, mValue = (1, 1, 1)\<rparr>]\<rparr>]\<rparr>"

definition sample_clip2 :: "rat aiAnimation" where
  "sample_clip2 =
     \<lparr>mTicksPerSecond = 0,
      mChannels =
        [\<lparr>mNodeName = ''prop'',
          mPositionKeys = [\<lparr>mTime = 0, mValue = (0, 0, 0)\<rparr>, \<lparr>mTime = 50, mValue = (4, 0, 0)\<rparr>],
          mRotationKeys = [\<lparr>mTime = 0, mValue = 1\<rparr>],
          mScalingKeys = [\<lparr>mTime = 0, mValue = (1, 1, 1)\<rparr>]\<rparr>]\<rparr>"

definition sample_scene :: "(rat, mat2) aiScene" where
  "sample_scene =
     \<lparr>mRootNode =
        aiNode ''root'' (Mat2 2 0 0 1) [0]
          [aiNode ''hip'' (Mat2 1 1 0 1) [] [aiNode ''knee'' (Mat2 1 0 1 1) [] []],
           aiNode ''prop'' (Mat2 1 2 0 1) [1] []],
      mMeshes = [sample_mesh0, sample_mesh1],
      mMaterials = [sample_material],
      mAnimations = [sample_clip0, sample_clip1, sample_clip2]\<rparr>"

definition sample_files :: stbi where
  "sample_files path = (if path = ''assets/skin.png'' then Some (64, 64, 4) else None)"

definition sample_world :: World where
  "sample_world = \<lparr>texNames = 0, texImages = [], cout = []\<rparr>"

definition sample_new :: "(rat, mat2) Model" where
  "sample_new = (Model_new (Mat2 9 9 9 9))\<lparr>directory := ''assets''\<rparr>"

definition sample_mesh2 :: "mat2 aiMesh" where
  "sample_mesh2 =
     \<lparr>mVertices = [(0, 2, 0)], mNormals = None, mTextureCoords0 = None,
      mBones =
        [\<lparr>mBoneName = ''hip'', mOffsetMatrix = Mat2 1 1 0 1, mWeights = []\<rparr>,
         \<lparr>mBoneName = ''knee'', mOffsetMatrix = Mat2 1 0 1 1,
          mWeights = [\<lparr>mVertexId = 0, mWeight = 0\<rparr>]\<rparr>],
      mFaces = [], mMaterialIndex = 0\<rparr>"

definition sample_loaded :: "(rat, mat2) Model" where
  "sample_loaded = sample_new\<lparr>scene := Some sample_scene\<rparr>"

text \<open>The model after loading the sample scene (default-constructed \<open>BoneIDs\<close> hold 7).\<close>

definition sample_model :: "(rat, mat2) Model" where
  "sample_model =
     (case InitFromScene sample_library (\<lambda>i v. sample_vertex 7) sample_files sample_new sample_world
             sample_scene of
        Inl e \<Rightarrow> sample_new
      | Inr (m, w) \<Rightarrow> m)"

text \<open>A model whose only clip has ticks-per-second 0 and a single position key, at time 0, in
  its channel 0.\<close>

definition sample_still :: "(rat, mat2) Model" where
  "sample_still =
     sample_new\<lparr>scene := Some (sample_scene\<lparr>mAnimations :=
       [\<lparr>mTicksPerSecond = 0,
         mChannels =
           [\<lparr>mNodeName = ''hip'',
             mPositionKeys = [\<lparr>mTime = 0, mValue = (2, 0, 0)\<rparr>],
             mRotationKeys = [\<lparr>mTime = 0, mValue = 1\<rparr>],
             mScalingKeys = [\<lparr>mTime = 0, mValue = (1, 1, 1)\<rparr>]\<rparr>]\<rparr>]\<rparr>)\<rparr>"

section \<open>Bone binding: lemmas\<close>

lemma upt4: "[0..<4] = [0, 1, 2, 3::nat]"
  by (simp add: upt_rec)

lemma all_less4: "(\<forall>g<4::nat. P g) = (P 0 \<and> P 1 \<and> P 2 \<and> P 3)"
proof -
  have "\<And>g::nat. g < 4 \<longleftrightarrow> g = 0 \<or> g = 1 \<or> g = 2 \<or> g = 3" by arith
  then show ?thesis by auto
qed

lemma storeInfluence_4: "storeInfluence 4 b w v = v"
  by (simp add: storeInfluence.simps [of 4] NUM_BONES_PER_VERTEX_def)

lemma storeInfluence_3:
  "storeInfluence 3 b w v =
     (if vget (BoneWeights v) 3 = 0
      then v\<lparr>BoneIDs := vset (BoneIDs v) 3 (to_int32 b), BoneWeights := vset (BoneWeights v) 3 w\<rparr>
      else v)"
  by (simp add: storeInfluence.simps [of 3] NUM_BONES_PER_VERTEX_def storeInfluence_4)

lemma storeInfluence_2:
  "storeInfluence 2 b w v =
     (if vget (BoneWeights v) 2 = 0
      then v\<lparr>BoneIDs := vset (BoneIDs v) 2 (to_int32 b), BoneWeights := vset (BoneWeights v) 2 w\<rparr>
      else storeInfluence 3 b w v)"
  by (simp add: storeInfluence.simps [of 2] NUM_BONES_PER_VERTEX_def)

lemma storeInfluence_1:
  "storeInfluence (Suc 0) b w v =
     (if vget (BoneWeights v) 1 = 0
      then v\<lparr>BoneIDs := vset (BoneIDs v) 1 (to_int32 b), BoneWeights := vset (BoneWeights v) 1 w\<rparr>
      else storeInfluence 2 b w v)"
  by (simp add: storeInfluence.simps [of "Suc 0"] NUM_BONES_PER_VERTEX_def numeral_2_eq_2)

lemma storeInfluence_0:
  "storeInfluence 0 b w v =
     (if vget (BoneWeights v) 0 = 0
      then v\<lparr>BoneIDs := vset (BoneIDs v) 0 (to_int32 b), BoneWeights := vset (BoneWeights v) 0 w\<rparr>
      else storeInfluence 1 b w v)"
  by (simp add: storeInfluence.simps [of 0] NUM_BONES_PER_VERTEX_def)

lemma storeInfluence_spec: "storeInfluence 0 b w v = spec_store b w v"
  by (cases "BoneWeights v")
     (simp add: storeInfluence_0 storeInfluence_1 storeInfluence_2 storeInfluence_3
        spec_store_def upt4)

lemma nonzero_prefix_Vec4:
  "nonzero_prefix v =
     (case BoneWeights v of
        Vec4 a b c d \<Rightarrow> (a = 0 \<longrightarrow> b = 0 \<and> c = 0 \<and> d = 0) \<and> (b = 0 \<longrightarrow> c = 0 \<and> d = 0) \<and> (c = 0 \<longrightarrow> d = 0))"
  by (cases "BoneWeights v") (auto simp add: nonzero_prefix_def NUM_BONES_PER_VERTEX_def all_less4)

lemma nonzero_prefix_store: "nonzero_prefix v \<Longrightarrow> nonzero_prefix (storeInfluence 0 b w v)"
  by (cases "BoneWeights v")
     (auto simp add: nonzero_prefix_Vec4 storeInfluence_spec spec_store_def upt4)

lemma store_zero_weights: "BoneWeights (storeInfluence 0 b 0 v) = BoneWeights v"
  by (cases "BoneWeights v") (auto simp add: storeInfluence_spec spec_store_def upt4)

lemma store_zero_overwritten:
  "storeInfluence 0 b' w' (storeInfluence 0 b 0 v) = storeInfluence 0 b' w' v"
  by (cases "BoneWeights v"; cases "BoneIDs v") (auto simp add: storeInfluence_spec spec_store_def upt4)

lemma processWeights_nth:
  "processWeights b ws vs = Inr vs' \<Longrightarrow>
     length vs' = length vs \<and>
     (\<forall>v<length vs. vs' ! v =
        foldl (\<lambda>x w. storeInfluence 0 b w x) (vs ! v)
          (map mWeight (filter (\<lambda>w. mVertexId w = v) ws)))"
proof (induction ws arbitrary: vs)
  case Nil
  then show ?case by simp
next
  case (Cons w ws)
  let ?vs1 = "vs[mVertexId w := storeInfluence 0 b (mWeight w) (vs ! mVertexId w)]"
  from Cons.prems have inr: "mVertexId w < length vs" and rest: "processWeights b ws ?vs1 = Inr vs'"
    by (auto simp add: Let_def split: if_splits)
  from Cons.IH [OF rest] have len: "length vs' = length vs"
    and nth: "\<forall>v<length vs. vs' ! v =
        foldl (\<lambda>x w. storeInfluence 0 b w x) (?vs1 ! v)
          (map mWeight (filter (\<lambda>w. mVertexId w = v) ws))"
    by simp_all
  show ?case
  proof (intro conjI allI impI)
    show "length vs' = length vs" by (rule len)
  next
    fix v assume v: "v < length vs"
    with nth have "vs' ! v = foldl (\<lambda>x w. storeInfluence 0 b w x) (?vs1 ! v)
          (map mWeight (filter (\<lambda>w. mVertexId w = v) ws))" by simp
    then show "vs' ! v = foldl (\<lambda>x w. storeInfluence 0 b w x) (vs ! v)
          (map mWeight (filter (\<lambda>w. mVertexId w = v) (w # ws)))"
      using v inr by (cases "mVertexId w = v") simp_all
  qed
qed

lemma processBones_nth:
  "processBones m bones vs = Inr (m', vs') \<Longrightarrow>
     length vs' = length vs \<and>
     (\<forall>v<length vs. vs' ! v =
        foldl (\<lambda>x (b, w). storeInfluence 0 b w x) (vs ! v) (arrivals m bones v))"
proof (induction bones arbitrary: m vs)
  case Nil
  then show ?case by simp
next
  case (Cons bone bones)
  from Cons.prems obtain b m1 vs1 where
    bb: "bindBone m bone = Inr (b, m1)" and
    pw: "processWeights b (mWeights bone) vs = Inr vs1" and
    rest: "processBones m1 bones vs1 = Inr (m', vs')"
    by (auto split: sum.splits)
  note w = processWeights_nth [OF pw]
  note r = Cons.IH [OF rest]
  have fold_map: "\<And>x ws. foldl (\<lambda>x (b, w). storeInfluence 0 b w x) x (map (\<lambda>w. (b, mWeight w)) ws)
      = foldl (\<lambda>x w. storeInfluence 0 b w x) x (map mWeight ws)"
    by (simp add: foldl_map)
  show ?case
    using w r by (simp add: bb fold_map)
qed

lemma foldl_preserves:
  assumes "\<And>x y. P x \<Longrightarrow> P (f x y)" and "P a"
  shows "P (foldl f a ys)"
  using assms(2) by (induction ys arbitrary: a) (simp_all add: assms(1))

lemma processBones_nonzero_prefix:
  assumes "processBones m bones vs = Inr (m', vs')" and "\<forall>v\<in>set vs. nonzero_prefix v"
  shows "\<forall>v\<in>set vs'. nonzero_prefix v"
proof
  fix x assume "x \<in> set vs'"
  then obtain v where v: "v < length vs'" and x: "x = vs' ! v"
    by (auto simp add: in_set_conv_nth)
  note n = processBones_nth [OF assms(1)]
  from v n have v': "v < length vs" by simp
  with n have eq: "vs' ! v = foldl (\<lambda>x (b, w). storeInfluence 0 b w x) (vs ! v) (arrivals m bones v)"
    by simp
  have "nonzero_prefix (vs ! v)" using assms(2) v' by simp
  then have "nonzero_prefix (foldl (\<lambda>x (b, w). storeInfluence 0 b w x) (vs ! v) (arrivals m bones v))"
    by (intro foldl_preserves [where P = nonzero_prefix]) (auto simp add: nonzero_prefix_store)
  with eq x show "nonzero_prefix x" by simp
qed

lemma makeVertex_weights:
  "makeVertex fresh mesh i = Inr v \<Longrightarrow> BoneWeights v = Vec4 0 0 0 0 \<and> BoneIDs v = BoneIDs (fresh i)"
  by (auto simp add: makeVertex_def split: sum.splits option.splits prod.splits)

lemma makeVertices_nth:
  "makeVertices fresh mesh is acc = Inr vs \<Longrightarrow>
     length vs = length acc + length is \<and>
     (\<forall>k<length acc. vs ! k = acc ! k) \<and>
     (\<forall>k<length is. makeVertex fresh mesh (is ! k) = Inr (vs ! (length acc + k)))"
proof (induction "is" arbitrary: acc)
  case Nil
  then show ?case by simp
next
  case (Cons i "is")
  from Cons.prems obtain x where x: "makeVertex fresh mesh i = Inr x"
    and rest: "makeVertices fresh mesh is (acc @ [x]) = Inr vs"
    by (auto split: sum.splits)
  from Cons.IH [OF rest] have len: "length vs = length acc + 1 + length is"
    and old: "\<forall>k<length acc + 1. vs ! k = (acc @ [x]) ! k"
    and new: "\<forall>k<length is. makeVertex fresh mesh (is ! k) = Inr (vs ! (length acc + 1 + k))"
    by simp_all
  show ?case
  proof (intro conjI allI impI)
    show "length vs = length acc + length (i # is)" using len by simp
  next
    fix k assume "k < length acc"
    then show "vs ! k = acc ! k" using old by (simp add: nth_append)
  next
    fix k assume k: "k < length (i # is)"
    show "makeVertex fresh mesh ((i # is) ! k) = Inr (vs ! (length acc + k))"
    proof (cases k)
      case 0
      have "vs ! length acc = (acc @ [x]) ! length acc" using old by simp
      then show ?thesis using 0 x by simp
    next
      case (Suc j)
      then show ?thesis using new k by simp
    qed
  qed
qed

lemma makeVertices_initial:
  assumes "makeVertices fresh mesh [0..<n] [] = Inr vs"
  shows "length vs = n \<and> (\<forall>v<n. BoneWeights (vs ! v) = Vec4 0 0 0 0 \<and> BoneIDs (vs ! v) = BoneIDs (fresh v))"
proof -
  note n = makeVertices_nth [OF assms]
  have "\<forall>v<n. makeVertex fresh mesh v = Inr (vs ! v)"
    using n by simp
  then show ?thesis using n by (auto dest: makeVertex_weights)
qed

lemma zero_weights_prefix: "BoneWeights v = Vec4 0 0 0 0 \<Longrightarrow> nonzero_prefix v"
  by (simp add: nonzero_prefix_Vec4)

lemma take_take_append: "take n (take n xs @ ys) = take n (xs @ ys)"
  by (cases "n \<le> length xs") (simp_all add: min_def)

lemma influences_store:
  "nonzero_prefix v \<Longrightarrow> w \<noteq> 0 \<Longrightarrow>
     influences (storeInfluence 0 b w v) = take 4 (influences v @ [(to_int32 b, w)])"
  by (cases "BoneWeights v"; cases "BoneIDs v")
     (auto simp add: nonzero_prefix_Vec4 storeInfluence_spec spec_store_def upt4 influences_def)

lemma influences_fold:
  "nonzero_prefix v \<Longrightarrow> \<forall>(b, w)\<in>set rs. w \<noteq> 0 \<Longrightarrow>
     influences (foldl (\<lambda>x (b, w). storeInfluence 0 b w x) v rs)
       = take 4 (influences v @ map (\<lambda>(b, w). (to_int32 b, w)) rs)"
proof (induction rs arbitrary: v)
  case Nil
  have "length (influences v) \<le> 4"
    unfolding influences_def by (rule order_trans [OF length_filter_le]) (simp add: upt4)
  then show ?case by simp
next
  case (Cons r rs)
  obtain b w where r: "r = (b, w)" by (cases r)
  with Cons.prems have w: "w \<noteq> 0" and rest: "\<forall>(b, w)\<in>set rs. w \<noteq> 0" by auto
  have p: "nonzero_prefix (storeInfluence 0 b w v)"
    using Cons.prems(1) by (rule nonzero_prefix_store)
  let ?f = "\<lambda>x (b, w). storeInfluence 0 b w x"
  let ?c = "\<lambda>(b, w). (to_int32 b, w)"
  have "influences (foldl ?f v (r # rs)) = influences (foldl ?f (storeInfluence 0 b w v) rs)"
    by (simp add: r)
  also have "\<dots> = take 4 (influences (storeInfluence 0 b w v) @ map ?c rs)"
    by (rule Cons.IH [OF p rest])
  also have "\<dots> = take 4 (take 4 (influences v @ [(to_int32 b, w)]) @ map ?c rs)"
    by (simp only: influences_store [OF Cons.prems(1) w])
  also have "\<dots> = take 4 ((influences v @ [(to_int32 b, w)]) @ map ?c rs)"
    by (rule take_take_append)
  also have "\<dots> = take 4 (influences v @ map ?c (r # rs))"
    by (simp add: r)
  finally show ?case .
qed

lemma unused_slot_store:
  "w \<noteq> 0 \<Longrightarrow> g < 4 \<Longrightarrow> vget (BoneWeights (storeInfluence 0 b w v)) g = 0 \<Longrightarrow>
     vget (BoneWeights v) g = 0 \<and> vget (BoneIDs (storeInfluence 0 b w v)) g = vget (BoneIDs v) g"
  by (cases "BoneWeights v"; cases "BoneIDs v")
     (auto simp add: storeInfluence_spec spec_store_def upt4 split: if_splits)

lemma unused_slot_fold:
  "\<forall>(b, w)\<in>set rs. w \<noteq> 0 \<Longrightarrow> g < 4 \<Longrightarrow>
   vget (BoneWeights (foldl (\<lambda>x (b, w). storeInfluence 0 b w x) v rs)) g = 0 \<Longrightarrow>
     vget (BoneWeights v) g = 0 \<and>
     vget (BoneIDs (foldl (\<lambda>x (b, w). storeInfluence 0 b w x) v rs)) g = vget (BoneIDs v) g"
proof (induction rs arbitrary: v)
  case Nil
  then show ?case by simp
next
  case (Cons r rs)
  obtain b w where r: "r = (b, w)" by (cases r)
  with Cons.prems have w: "w \<noteq> 0" and rest: "\<forall>(b, w)\<in>set rs. w \<noteq> 0" by auto
  from Cons.prems(3) have z: "vget (BoneWeights (foldl (\<lambda>x (b, w). storeInfluence 0 b w x)
       (storeInfluence 0 b w v) rs)) g = 0" by (simp add: r)
  note ih = Cons.IH [OF rest Cons.prems(2) z]
  from ih have "vget (BoneWeights (storeInfluence 0 b w v)) g = 0" by simp
  note unused_slot_store [OF w Cons.prems(2) this]
  with ih show ?case by (simp add: r)
qed

lemma bindBone_old:
  "boneMapping m (mBoneName bone) = Some i \<Longrightarrow> bindBone m bone = Inr (i, m)"
  by (simp add: bindBone_def)

lemma bindBone_new:
  assumes "boneMapping m (mBoneName bone) = None" and "bonesCount m \<le> length (boneMatrices m)"
  shows "\<exists>m1. bindBone m bone = Inr (bonesCount m, m1) \<and>
           boneMapping m1 = (boneMapping m)(mBoneName bone \<mapsto> bonesCount m) \<and>
           bonesCount m1 = (bonesCount m + 1) mod 2 ^ 32 \<and>
           length (boneMatrices m1) = length (boneMatrices m) + 1"
  using assms by (simp add: bindBone_def Let_def)

lemma bindAll_general:
  fixes m :: "('q, 'm::zero) Model"
  assumes "registry_ok m"
    and "card (dom (boneMapping m) \<union> mBoneName ` set bones) < 2 ^ 32"
  shows "\<exists>is m'. bindAll m bones = Inr (is, m') \<and> length is = length bones \<and>
           registry_ok m' \<and>
           dom (boneMapping m') = dom (boneMapping m) \<union> mBoneName ` set bones \<and>
           (\<forall>n i. boneMapping m n = Some i \<longrightarrow> boneMapping m' n = Some i) \<and>
           (\<forall>k<length bones. boneMapping m' (mBoneName (bones ! k)) = Some (is ! k)) \<and>
           (\<forall>k<length bones.
              mBoneName (bones ! k) \<notin> dom (boneMapping m) \<union> mBoneName ` set (take k bones) \<longrightarrow>
              is ! k = card (dom (boneMapping m) \<union> mBoneName ` set (take k bones)))"
  using assms
proof (induction bones arbitrary: m)
  case Nil
  then show ?case by simp
next
  case (Cons bone bones)
  let ?D = "dom (boneMapping m)"
  let ?n = "mBoneName bone"
  have fin: "finite ?D" and cnt: "bonesCount m = card ?D"
    and len: "bonesCount m \<le> length (boneMatrices m)"
    using Cons.prems(1) by (simp_all add: registry_ok_def)
  have "\<exists>b m1. bindBone m bone = Inr (b, m1) \<and> registry_ok m1 \<and>
          dom (boneMapping m1) = insert ?n ?D \<and> boneMapping m1 ?n = Some b \<and>
          (\<forall>n i. boneMapping m n = Some i \<longrightarrow> boneMapping m1 n = Some i) \<and>
          (?n \<notin> ?D \<longrightarrow> b = card ?D)"
  proof (cases "boneMapping m ?n")
    case (Some i)
    then have "insert ?n ?D = ?D" by auto
    with Some Cons.prems(1) show ?thesis
      by (auto simp add: bindBone_old)
  next
    case None
    from bindBone_new [OF None len] obtain m1 where
      b: "bindBone m bone = Inr (bonesCount m, m1)" and
      mp: "boneMapping m1 = (boneMapping m)(?n \<mapsto> bonesCount m)" and
      c1: "bonesCount m1 = (bonesCount m + 1) mod 2 ^ 32" and
      l1: "length (boneMatrices m1) = length (boneMatrices m) + 1"
      by blast
    have notin: "?n \<notin> ?D" using None by auto
    have d1: "dom (boneMapping m1) = insert ?n ?D" by (simp add: mp)
    have "card (insert ?n ?D) \<le> card (?D \<union> mBoneName ` set (bone # bones))"
      by (rule card_mono) (use fin in auto)
    then have small: "card ?D + 1 < 2 ^ 32"
      using Cons.prems(2) notin fin by simp
    then have c1': "bonesCount m1 = card ?D + 1" using c1 cnt by simp
    have ok1: "registry_ok m1"
      using fin notin c1' l1 len cnt by (simp add: registry_ok_def d1)
    have mono: "\<forall>n i. boneMapping m n = Some i \<longrightarrow> boneMapping m1 n = Some i"
      using None by (auto simp add: mp)
    show ?thesis
      using b ok1 d1 mono cnt by (auto simp add: mp)
  qed
  then obtain b m1 where
    b: "bindBone m bone = Inr (b, m1)" and ok1: "registry_ok m1" and
    d1: "dom (boneMapping m1) = insert ?n ?D" and here: "boneMapping m1 ?n = Some b" and
    mono1: "\<forall>n i. boneMapping m n = Some i \<longrightarrow> boneMapping m1 n = Some i" and
    fresh: "?n \<notin> ?D \<longrightarrow> b = card ?D"
    by blast
  have sets: "\<And>S. dom (boneMapping m1) \<union> mBoneName ` S = ?D \<union> mBoneName ` (insert bone S)"
    by (auto simp add: d1)
  have "card (dom (boneMapping m1) \<union> mBoneName ` set bones) < 2 ^ 32"
    using Cons.prems(2) by (simp add: sets)
  from Cons.IH [OF ok1 this] obtain "is" m' where
    r: "bindAll m1 bones = Inr (is, m')" and rl: "length is = length bones" and
    ok': "registry_ok m'" and
    d': "dom (boneMapping m') = dom (boneMapping m1) \<union> mBoneName ` set bones" and
    mono': "\<forall>n i. boneMapping m1 n = Some i \<longrightarrow> boneMapping m' n = Some i" and
    idx: "\<forall>k<length bones. boneMapping m' (mBoneName (bones ! k)) = Some (is ! k)" and
    new: "\<forall>k<length bones.
              mBoneName (bones ! k) \<notin> dom (boneMapping m1) \<union> mBoneName ` set (take k bones) \<longrightarrow>
              is ! k = card (dom (boneMapping m1) \<union> mBoneName ` set (take k bones))"
    by blast
  have res: "bindAll m (bone # bones) = Inr (b # is, m')" by (simp add: b r)
  have c3: "\<forall>k<length (bone # bones). boneMapping m' (mBoneName ((bone # bones) ! k)) = Some ((b # is) ! k)"
  proof (intro allI impI)
    fix k assume "k < length (bone # bones)"
    then show "boneMapping m' (mBoneName ((bone # bones) ! k)) = Some ((b # is) ! k)"
      using here mono' idx by (cases k) auto
  qed
  have c4: "\<forall>k<length (bone # bones).
              mBoneName ((bone # bones) ! k) \<notin> ?D \<union> mBoneName ` set (take k (bone # bones)) \<longrightarrow>
              (b # is) ! k = card (?D \<union> mBoneName ` set (take k (bone # bones)))"
  proof (intro allI impI)
    fix k assume k: "k < length (bone # bones)"
      and nn: "mBoneName ((bone # bones) ! k) \<notin> ?D \<union> mBoneName ` set (take k (bone # bones))"
    show "(b # is) ! k = card (?D \<union> mBoneName ` set (take k (bone # bones)))"
    proof (cases k)
      case 0
      then show ?thesis using nn fresh by simp
    next
      case (Suc j)
      have "?D \<union> mBoneName ` set (take k (bone # bones))
              = dom (boneMapping m1) \<union> mBoneName ` set (take j bones)"
        by (simp add: Suc sets)
      then show ?thesis using new k nn Suc by simp
    qed
  qed
  show ?case
    using res rl ok' d' mono1 mono' c3 c4 by (auto simp add: d1)
qed

lemma processBones_bindAll:
  "processBones m bones vs = Inr (m', vs') \<Longrightarrow> \<exists>is. bindAll m bones = Inr (is, m')"
proof (induction bones arbitrary: m vs)
  case Nil
  then show ?case by simp
next
  case (Cons bone bones)
  from Cons.prems obtain b m1 vs1 where
    bb: "bindBone m bone = Inr (b, m1)" and
    rest: "processBones m1 bones vs1 = Inr (m', vs')"
    by (auto split: sum.splits)
  from Cons.IH [OF rest] show ?case by (auto simp add: bb)
qed

lemma Model_new_ok: "registry_ok (Model_new g0)"
  by (simp add: registry_ok_def Model_new_def)

lemmas sample_defs =
  sample_loaded_def sample_new_def Model_new_def sample_scene_def sample_mesh0_def sample_mesh1_def
  sample_mesh2_def sample_material_def sample_files_def sample_world_def sample_vertex_def
  sample_clip0_def sample_clip1_def sample_clip2_def

lemmas run_defs =
  processMesh_def makeVertex_def nth_chk_def bindBone_def Let_def storeInfluence_spec spec_store_def
  upt4 to_int32_def loadMaterialTextures_def TextureFromFile_def mesh_of_def upt_rec

lemma processMesh_stages:
  assumes "processMesh fresh stbi_load m w mesh = Inr (me, m', w')"
  shows "\<exists>vs0 m1. makeVertices fresh mesh [0..<length (mVertices mesh)] [] = Inr vs0 \<and>
           processBones m (mBones mesh) vs0 = Inr (m1, vertices me)"
  using assms by (auto simp add: processMesh_def split: sum.splits option.splits prod.splits)

lemma processMesh_vertex:
  assumes "processMesh fresh stbi_load m w mesh = Inr (me, m', w')" and "v < length (mVertices mesh)"
  shows "\<exists>v0. makeVertex fresh mesh v = Inr v0 \<and> BoneWeights v0 = Vec4 0 0 0 0 \<and>
           BoneIDs v0 = BoneIDs (fresh v) \<and>
           vertices me ! v = foldl (\<lambda>x (b, w). storeInfluence 0 b w x) v0 (arrivals m (mBones mesh) v)"
proof -
  from processMesh_stages [OF assms(1)] obtain vs0 m1 where
    mk: "makeVertices fresh mesh [0..<length (mVertices mesh)] [] = Inr vs0" and
    pb: "processBones m (mBones mesh) vs0 = Inr (m1, vertices me)"
    by blast
  note n = makeVertices_nth [OF mk]
  from n assms(2) have len: "v < length vs0" and v0: "makeVertex fresh mesh v = Inr (vs0 ! v)"
    by simp_all
  from processBones_nth [OF pb] len have
    "vertices me ! v = foldl (\<lambda>x (b, w). storeInfluence 0 b w x) (vs0 ! v) (arrivals m (mBones mesh) v)"
    by simp
  with v0 makeVertex_weights [OF v0] show ?thesis by simp
qed

lemma foldl_store_spec:
  "foldl (\<lambda>x (b, w). storeInfluence 0 b w x) v rs = foldl (\<lambda>x (b, w). spec_store b w x) v rs"
  by (simp add: storeInfluence_spec)

lemma influences_le: "length (influences v) \<le> 4"
  unfolding influences_def by (rule order_trans [OF length_filter_le]) (simp add: upt4)

lemma influences_zero: "BoneWeights v = Vec4 0 0 0 0 \<Longrightarrow> influences v = []"
  by (simp add: influences_def upt4)

text \<open>
  C4.  After \<open>processMesh\<close>, every vertex is its freshly built vertex with the records
  that arrived for it stored one after the other, each in the first of the four slots whose
  weight is 0 and dropped when no slot has weight 0 (\<open>spec_store\<close>); it holds at most 4
  pairs with a nonzero weight; and when no arriving weight is 0 these pairs are the first
  four arrivals, in the order of arrival.
\<close>

theorem influence_slots:
  assumes "processMesh fresh stbi_load m w mesh = Inr (me, m', w')" and "v < length (mVertices mesh)"
  shows "\<exists>v0. makeVertex fresh mesh v = Inr v0 \<and>
           vertices me ! v = foldl (\<lambda>x (b, w). spec_store b w x) v0 (arrivals m (mBones mesh) v) \<and>
           length (influences (vertices me ! v)) \<le> 4 \<and>
           ((\<forall>(b, w)\<in>set (arrivals m (mBones mesh) v). w \<noteq> 0) \<longrightarrow>
              influences (vertices me ! v) =
                take 4 (map (\<lambda>(b, w). (to_int32 b, w)) (arrivals m (mBones mesh) v)))"
proof -
  from processMesh_vertex [OF assms] obtain v0 where
    v0: "makeVertex fresh mesh v = Inr v0" and z: "BoneWeights v0 = Vec4 0 0 0 0" and
    f: "vertices me ! v = foldl (\<lambda>x (b, w). storeInfluence 0 b w x) v0 (arrivals m (mBones mesh) v)"
    by blast
  have "(\<forall>(b, w)\<in>set (arrivals m (mBones mesh) v). w \<noteq> 0) \<longrightarrow>
          influences (vertices me ! v) =
            take 4 (map (\<lambda>(b, w). (to_int32 b, w)) (arrivals m (mBones mesh) v))"
  proof
    assume nz: "\<forall>(b, w)\<in>set (arrivals m (mBones mesh) v). w \<noteq> 0"
    from influences_fold [OF zero_weights_prefix [OF z] nz]
    show "influences (vertices me ! v) =
            take 4 (map (\<lambda>(b, w). (to_int32 b, w)) (arrivals m (mBones mesh) v))"
      by (simp only: f influences_zero [OF z] append_Nil)
  qed
  with v0 f show ?thesis
    by (simp only: foldl_store_spec influences_le) simp
qed

theorem influence_slots_witness:
  "map_option (\<lambda>me. influences (vertices me ! 0))
     (mesh_of (processMesh (\<lambda>v. sample_vertex 7) sample_files sample_loaded sample_world sample_mesh0))
   = Some [(0, 1 / 2), (1, 1 / 4)]"
  using influence_slots [of "\<lambda>v. sample_vertex 7" sample_files sample_loaded sample_world sample_mesh0
      "fst (projr (processMesh (\<lambda>v. sample_vertex 7) sample_files sample_loaded sample_world sample_mesh0))"
      "fst (snd (projr (processMesh (\<lambda>v. sample_vertex 7) sample_files sample_loaded sample_world sample_mesh0)))"
      "snd (snd (projr (processMesh (\<lambda>v. sample_vertex 7) sample_files sample_loaded sample_world sample_mesh0)))"
      0]
  by (simp add: sample_defs run_defs influences_def)

section \<open>The nonzero weights of a vertex\<close>

lemma makeVertices_prefix:
  assumes "makeVertices fresh mesh is [] = Inr vs"
  shows "\<forall>v\<in>set vs. nonzero_prefix v"
proof
  fix x assume "x \<in> set vs"
  then obtain k where k: "k < length vs" and x: "x = vs ! k"
    by (auto simp add: in_set_conv_nth)
  note n = makeVertices_nth [OF assms]
  from n k have "makeVertex fresh mesh (is ! k) = Inr (vs ! k)" by simp
  from makeVertex_weights [OF this] show "nonzero_prefix x"
    by (simp add: x zero_weights_prefix)
qed

text \<open>
  C10.  Start from the vertices the vertex loop builds and run the bone loop over any
  list of bones (so also over an initial part of a mesh's bones, the last one with an
  initial part of its weights: every point of the binding).  In every vertex reached the
  slots with a nonzero weight form a prefix of the four slots, and one more record keeps
  it so.  A record of weight 0 leaves all four weights as they were, and the record
  after it lands where it would have landed without it: the slot stayed empty and is
  overwritten.
\<close>

theorem nonzero_weights_prefix:
  assumes "makeVertices fresh mesh is [] = Inr vs0"
    and "processBones m bones vs0 = Inr (m', vs')"
    and "v \<in> set vs'"
  shows "nonzero_prefix v \<and>
         BoneWeights (storeInfluence 0 b 0 v) = BoneWeights v \<and>
         nonzero_prefix (storeInfluence 0 b w v) \<and>
         storeInfluence 0 b' w' (storeInfluence 0 b 0 v) = storeInfluence 0 b' w' v"
proof -
  have "nonzero_prefix v"
    using processBones_nonzero_prefix [OF assms(2) makeVertices_prefix [OF assms(1)]] assms(3)
    by simp
  then show ?thesis
    by (simp add: store_zero_weights store_zero_overwritten nonzero_prefix_store)
qed

theorem nonzero_weights_prefix_witness:
  "nonzero_prefix
     (snd (projr (processBones sample_loaded (mBones sample_mesh0)
        (projr (makeVertices (\<lambda>v. sample_vertex 7) sample_mesh0 [0, 1] [])))) ! 0)"
  using nonzero_weights_prefix [of "\<lambda>v. sample_vertex 7" sample_mesh0 "[0, 1]"
      "projr (makeVertices (\<lambda>v. sample_vertex 7) sample_mesh0 [0, 1] [])"
      sample_loaded "mBones sample_mesh0"
      "fst (projr (processBones sample_loaded (mBones sample_mesh0)
        (projr (makeVertices (\<lambda>v. sample_vertex 7) sample_mesh0 [0, 1] []))))"
      "snd (projr (processBones sample_loaded (mBones sample_mesh0)
        (projr (makeVertices (\<lambda>v. sample_vertex 7) sample_mesh0 [0, 1] []))))"
      "snd (projr (processBones sample_loaded (mBones sample_mesh0)
        (projr (makeVertices (\<lambda>v. sample_vertex 7) sample_mesh0 [0, 1] [])))) ! 0"]
  by (simp add: sample_defs run_defs)

section \<open>Unused influence slots\<close>

lemma untouched_store:
  assumes "\<forall>h. k \<le> h \<and> h < 4 \<longrightarrow> vget (BoneWeights x) h = 0 \<and> vget (BoneIDs x) h = I h"
  shows "\<forall>h. Suc k \<le> h \<and> h < 4 \<longrightarrow>
           vget (BoneWeights (storeInfluence 0 b w x)) h = 0 \<and>
           vget (BoneIDs (storeInfluence 0 b w x)) h = I h"
proof (intro allI impI)
  fix h :: nat assume h: "Suc k \<le> h \<and> h < 4"
  then have hk: "k < 4" "k < h" by simp_all
  from assms h have a1: "vget (BoneWeights x) h = 0" and a2: "vget (BoneIDs x) h = I h" by simp_all
  from assms hk have a3: "vget (BoneWeights x) k = 0" by simp
  have hc: "h = 1 \<or> h = 2 \<or> h = 3" using h by arith
  have kc: "k = 0 \<or> k = 1 \<or> k = 2" using h by arith
  show "vget (BoneWeights (storeInfluence 0 b w x)) h = 0 \<and>
        vget (BoneIDs (storeInfluence 0 b w x)) h = I h"
    using a1 a2 a3 hc kc hk(2)
    by (cases "BoneWeights x"; cases "BoneIDs x")
       (auto simp add: storeInfluence_spec spec_store_def upt4)
qed

lemma untouched_fold:
  assumes "\<forall>h. k \<le> h \<and> h < 4 \<longrightarrow> vget (BoneWeights x) h = 0 \<and> vget (BoneIDs x) h = I h"
  shows "\<forall>h. k + length rs \<le> h \<and> h < 4 \<longrightarrow>
           vget (BoneWeights (foldl (\<lambda>x (b, w). storeInfluence 0 b w x) x rs)) h = 0 \<and>
           vget (BoneIDs (foldl (\<lambda>x (b, w). storeInfluence 0 b w x) x rs)) h = I h"
  using assms
proof (induction rs arbitrary: x k)
  case Nil
  then show ?case by simp
next
  case (Cons r rs)
  obtain b w where r: "r = (b, w)" by (cases r)
  from Cons.IH [OF untouched_store [OF Cons.prems, of b w]]
  show ?case by (simp add: r)
qed

text \<open>
  C6, amended.  After \<open>processMesh\<close>, a slot past the records that arrived for the vertex
  (slot \<open>g\<close> with at most \<open>g\<close> arrivals) holds weight 0 and the bone index that the default
  construction of the vertex left there; the source never assigns it.
\<close>

theorem untouched_slots:
  assumes "processMesh fresh stbi_load m w mesh = Inr (me, m', w')"
    and "v < length (mVertices mesh)"
    and "length (arrivals m (mBones mesh) v) \<le> g"
    and "g < NUM_BONES_PER_VERTEX"
  shows "vget (BoneWeights (vertices me ! v)) g = 0 \<and>
         vget (BoneIDs (vertices me ! v)) g = vget (BoneIDs (fresh v)) g"
proof -
  from processMesh_vertex [OF assms(1,2)] obtain v0 where
    z: "BoneWeights v0 = Vec4 0 0 0 0" and i: "BoneIDs v0 = BoneIDs (fresh v)" and
    f: "vertices me ! v = foldl (\<lambda>x (b, w). storeInfluence 0 b w x) v0 (arrivals m (mBones mesh) v)"
    by blast
  have "\<forall>h. 0 \<le> h \<and> h < 4 \<longrightarrow>
          vget (BoneWeights v0) h = 0 \<and> vget (BoneIDs v0) h = vget (BoneIDs (fresh v)) h"
    by (simp add: z i)
  from untouched_fold [OF this, of "arrivals m (mBones mesh) v"] assms(3,4)
  show ?thesis by (simp add: f NUM_BONES_PER_VERTEX_def)
qed

theorem untouched_slots_witness:
  "map_option (\<lambda>me. (vget (BoneIDs (vertices me ! 1)) 1, vget (BoneWeights (vertices me ! 1)) 1))
     (mesh_of (processMesh (\<lambda>v. sample_vertex 7) sample_files sample_loaded sample_world sample_mesh0))
   = Some (7, 0)"
  using untouched_slots [of "\<lambda>v. sample_vertex 7" sample_files sample_loaded sample_world sample_mesh0
      "fst (projr (processMesh (\<lambda>v. sample_vertex 7) sample_files sample_loaded sample_world sample_mesh0))"
      "fst (snd (projr (processMesh (\<lambda>v. sample_vertex 7) sample_files sample_loaded sample_world sample_mesh0)))"
      "snd (snd (projr (processMesh (\<lambda>v. sample_vertex 7) sample_files sample_loaded sample_world sample_mesh0)))"
      1 1]
  by (simp add: sample_defs run_defs NUM_BONES_PER_VERTEX_def)

text \<open>
  C6 as stated fails.  With a default construction that zeroes \<open>BoneIDs\<close>, a record of
  weight 0 for bone 1 leaves the pair \<open>(1, 0)\<close> in slot 0 of a vertex without any
  influence; and with a default construction that leaves 7 in \<open>BoneIDs\<close>, the unused
  slots of both vertices of the first sample mesh hold \<open>(7, 0)\<close>.
\<close>

theorem unused_slots_counterexample:
  "map_option vertices
     (mesh_of (processMesh (\<lambda>v. sample_vertex 0) sample_files sample_loaded sample_world sample_mesh2))
   = Some [\<lparr>Position = (0, 2, 0), Normal = (9, 9, 9), TexCoords = (0, 0),
            BoneIDs = Vec4 1 0 0 0, BoneWeights = Vec4 0 0 0 0\<rparr>] \<and>
   map_option vertices
     (mesh_of (processMesh (\<lambda>v. sample_vertex 7) sample_files sample_loaded sample_world sample_mesh0))
   = Some [\<lparr>Position = (0, 0, 0), Normal = (9, 9, 9), TexCoords = (0, 0),
            BoneIDs = Vec4 0 1 7 7, BoneWeights = Vec4 (1 / 2) (1 / 4) 0 0\<rparr>,
           \<lparr>Position = (1, 0, 0), Normal = (9, 9, 9), TexCoords = (0, 0),
            BoneIDs = Vec4 0 7 7 7, BoneWeights = Vec4 1 0 0 0\<rparr>]"
  by (simp add: sample_defs run_defs)

section \<open>The evaluator: what it changes\<close>

lemma only_finals_refl: "only_finals m m"
  by (simp add: only_finals_def)

lemma only_finals_trans: "only_finals a b \<Longrightarrow> only_finals b c \<Longrightarrow> only_finals a c"
  unfolding only_finals_def
proof (intro conjI)
  assume ab: "b = a\<lparr>boneMatrices := boneMatrices b\<rparr> \<and>
      length (boneMatrices b) = length (boneMatrices a) \<and>
      map BoneOffset (boneMatrices b) = map BoneOffset (boneMatrices a)"
    and bc: "c = b\<lparr>boneMatrices := boneMatrices c\<rparr> \<and>
      length (boneMatrices c) = length (boneMatrices b) \<and>
      map BoneOffset (boneMatrices c) = map BoneOffset (boneMatrices b)"
  from ab have b: "b = a\<lparr>boneMatrices := boneMatrices b\<rparr>" by simp
  from bc have c: "c = b\<lparr>boneMatrices := boneMatrices c\<rparr>" by simp
  have "c = (a\<lparr>boneMatrices := boneMatrices b\<rparr>)\<lparr>boneMatrices := boneMatrices c\<rparr>"
    by (subst c, subst b) simp
  then show "c = a\<lparr>boneMatrices := boneMatrices c\<rparr>" by simp
  show "length (boneMatrices c) = length (boneMatrices a)" using ab bc by simp
  show "map BoneOffset (boneMatrices c) = map BoneOffset (boneMatrices a)" using ab bc by simp
qed

lemma only_finals_write: "only_finals m (spec_write m node)"
proof (cases "boneMapping m (fst node)")
  case None
  then show ?thesis by (simp add: spec_write_def only_finals_refl)
next
  case (Some i)
  have "map BoneOffset ((boneMatrices m)[i := (boneMatrices m ! i)\<lparr>FinalTransformation := X\<rparr>])
          = map BoneOffset (boneMatrices m)" for X
  proof (cases "i < length (boneMatrices m)")
    case True
    then show ?thesis by (simp add: map_update list_update_same_conv)
  next
    case False
    then show ?thesis by (simp add: list_update_beyond)
  qed
  with Some show ?thesis by (simp add: spec_write_def only_finals_def)
qed

lemma readNodeHeirarchy_unfold:
  assumes "readNodeHeirarchy L m t (aiNode name tr ms cs) P = Inr m'"
  shows "\<exists>sc loc. scene m = Some sc \<and> currentAnimation m < length (mAnimations sc) \<and>
           spec_local L (mAnimations sc ! currentAnimation m) t (aiNode name tr ms cs) = Inr loc \<and>
           readChildren L (spec_write m (name, P * loc)) t cs (P * loc) = Inr m'"
  using assms
  by (auto simp add: spec_local_def spec_write_def nth_chk_def Let_def
        split: option.splits sum.splits if_splits)

lemma readChildren_frame:
  assumes "\<And>c m P m'. c \<in> set cs \<Longrightarrow> readNodeHeirarchy L m t c P = Inr m' \<Longrightarrow> only_finals m m'"
  shows "readChildren L m t cs P = Inr m' \<Longrightarrow> only_finals m m'"
  using assms
proof (induction cs arbitrary: m)
  case Nil
  then show ?case by (simp add: only_finals_refl)
next
  case (Cons c cs)
  from Cons.prems(1) obtain m1 where
    a: "readNodeHeirarchy L m t c P = Inr m1" and b: "readChildren L m1 t cs P = Inr m'"
    by (auto split: sum.splits)
  have "only_finals m m1" by (rule Cons.prems(2) [OF _ a]) simp
  moreover have "only_finals m1 m'"
  proof (rule Cons.IH [OF b])
    fix ca ma Pa ma'
    assume "ca \<in> set cs" and "readNodeHeirarchy L ma t ca Pa = Inr ma'"
    then show "only_finals ma ma'" using Cons.prems(2) [of ca ma Pa ma'] by simp
  qed
  ultimately show ?case by (rule only_finals_trans)
qed

lemma readNodeHeirarchy_frame:
  "readNodeHeirarchy L m t node P = Inr m' \<Longrightarrow> only_finals m m'"
proof (induction node arbitrary: m P m')
  case (aiNode name tr ms cs)
  from readNodeHeirarchy_unfold [OF aiNode.prems] obtain sc loc where
    r: "readChildren L (spec_write m (name, P * loc)) t cs (P * loc) = Inr m'"
    by blast
  have "only_finals (spec_write m (name, P * loc)) m'"
    using r aiNode.IH by (rule readChildren_frame [rotated])
  with only_finals_write show ?case by (rule only_finals_trans)
qed

lemma boneTransform_unfold:
  assumes "boneTransform L m time = Inr (m', transforms)"
  shows "\<exists>d t sc. boneTransform_time m time = Inr (d, t) \<and> scene m = Some sc \<and>
           readNodeHeirarchy L (m\<lparr>animDuration := d\<rparr>) t (mRootNode sc) 1 = Inr m' \<and>
           bonesCount m' \<le> length (boneMatrices m') \<and>
           transforms = map FinalTransformation (take (bonesCount m') (boneMatrices m'))"
  using assms
  by (auto simp add: boneTransform_def split: sum.splits option.splits prod.splits if_splits)

text \<open>
  C5, amended.  A call of \<open>boneTransform\<close> that returns leaves every field of the model
  as it was, except \<open>animDuration\<close>, which it overwrites with the duration it computed,
  and the \<open>FinalTransformation\<close> entries of the bone matrices: their number and their
  offset matrices are unchanged.
\<close>

theorem boneTransform_frame:
  assumes "boneTransform L m time = Inr (m', transforms)"
  shows "\<exists>d t bm. boneTransform_time m time = Inr (d, t) \<and>
           m' = m\<lparr>animDuration := d, boneMatrices := bm\<rparr> \<and>
           length bm = length (boneMatrices m) \<and>
           map BoneOffset bm = map BoneOffset (boneMatrices m)"
proof -
  from boneTransform_unfold [OF assms] obtain d t sc where
    bt: "boneTransform_time m time = Inr (d, t)" and sc: "scene m = Some sc" and
    r: "readNodeHeirarchy L (m\<lparr>animDuration := d\<rparr>) t (mRootNode sc) 1 = Inr m'"
    by blast
  from readNodeHeirarchy_frame [OF r] have
    "m' = m\<lparr>animDuration := d, boneMatrices := boneMatrices m'\<rparr>"
    "length (boneMatrices m') = length (boneMatrices m)"
    "map BoneOffset (boneMatrices m') = map BoneOffset (boneMatrices m)"
    by (simp_all add: only_finals_def)
  with bt show ?thesis by blast
qed

lemma sample_roundings:
  "f32 25 = Fin 25" "f32 100 = Fin 100" "f64 100 = Fin 100" "f32 53 = Fin 53"
  "f32 (1 / 4) = Fin (1 / 4)" "f32 (1 / 2) = Fin (1 / 2)" "f32 1 = Fin 1" "f32 2 = Fin 2"
  "f32 3 = Fin 3" "f32 (3 / 2) = Fin (3 / 2)"
  by code_simp+

lemma floor_divide_rat_numeral:
  "\<lfloor>numeral a / numeral b :: rat\<rfloor> = numeral a div numeral b"
  by (metis floor_divide_of_int_eq of_int_numeral)

lemma f32_0: "f32 0 = Fin 0"
  by (simp add: f32_def round_fl_def)

lemma f64_0: "f64 0 = Fin 0"
  by (simp add: f64_def round_fl_def)

lemmas eval_defs =
  boneTransform_def boneTransform_time_def nth_chk_def Let_def fl_sub_def model_of_def
  calcInterpolatedPosition_def calcInterpolatedRotation_def calcInterpolatedScaling_def
  findPosition_def findRotation_def findScaling_def keyFactor_def time_less_def
  sample_library_def one_mat2_def zero_mat2_def sample_roundings f32_0 f64_0 findKey.simps
  floor_divide_rat_numeral

theorem boneTransform_frame_witness:
  "map_option animDuration (model_of (boneTransform sample_library sample_loaded 1)) = Some 53 \<and>
   map_option currentAnimation (model_of (boneTransform sample_library sample_loaded 1)) = Some 0"
  using boneTransform_frame [of sample_library sample_loaded 1
      "fst (projr (boneTransform sample_library sample_loaded 1))"
      "snd (projr (boneTransform sample_library sample_loaded 1))"]
  by (simp add: sample_defs eval_defs)

text \<open>
  C5 as stated fails: the model loaded with the sample scene has \<open>animDuration = 0\<close>, and
  after one evaluation it has \<open>animDuration = 53\<close>.
\<close>

theorem boneTransform_frame_counterexample:
  "animDuration sample_loaded = 0 \<and>
   map_option animDuration (model_of (boneTransform sample_library sample_loaded 0)) = Some 53"
  by (simp add: sample_defs eval_defs)


section \<open>The evaluator: duration and animation time\<close>

lemma wrap_index:
  fixes n :: nat
  assumes "0 < n" and "n < 2 ^ 32"
  shows "(n + 2 ^ 32 - 1) mod 2 ^ 32 = n - 1"
proof -
  from assms(1) obtain k where k: "n = Suc k" by (cases n) auto
  have "Suc k + 2 ^ 32 - 1 = k + 2 ^ 32" by simp
  moreover have "(k + 2 ^ 32) mod 2 ^ 32 = k" using assms(2) k by simp
  ultimately have "(Suc k + 2 ^ 32 - 1) mod 2 ^ 32 = Suc k - 1" by (simp only: diff_Suc_1)
  then show ?thesis by (simp only: k)
qed

lemma boneTransform_time_value:
  assumes "scene m = Some sc"
    and "currentAnimation m < length (mAnimations sc)"
    and "mChannels (mAnimations sc ! currentAnimation m) = channel # channels"
    and "mPositionKeys channel = keys @ [key]"
    and "length (mPositionKeys channel) < 2 ^ 32"
  shows "boneTransform_time m time =
           Inr (mTime key,
                to_float
                  (fmod (fl_mul f32 (Fin time)
                           (f32 (if mTicksPerSecond (mAnimations sc ! currentAnimation m) \<noteq> 0
                                 then mTicksPerSecond (mAnimations sc ! currentAnimation m)
                                 else 25)))
                     (Fin (mTime key))))"
proof -
  have "(length (mPositionKeys channel) + 2 ^ 32 - 1) mod 2 ^ 32 = length keys"
    using wrap_index [of "length (mPositionKeys channel)"] assms(4,5) by simp
  then show ?thesis
    using assms by (simp add: boneTransform_time_def nth_chk_def Let_def)
qed

text \<open>
  C2.  With at least one channel in the current clip and at least one position key in
  its channel 0, the duration that \<open>boneTransform\<close> uses for the wrap with \<open>fmod\<close>, and
  stores in \<open>animDuration\<close>, is the timestamp of the last position key of channel 0,
  whatever the other tracks and channels hold.  (In the sample clip the rotation track of
  a later channel ends at 100; the duration is 53.)
\<close>

theorem duration_from_channel0:
  assumes "scene m = Some sc"
    and "currentAnimation m < length (mAnimations sc)"
    and "mChannels (mAnimations sc ! currentAnimation m) = channel # channels"
    and "mPositionKeys channel = keys @ [key]"
    and "length (mPositionKeys channel) < 2 ^ 32"
  shows "boneTransform_time m time =
           Inr (mTime key,
                to_float
                  (fmod (fl_mul f32 (Fin time)
                           (f32 (if mTicksPerSecond (mAnimations sc ! currentAnimation m) \<noteq> 0
                                 then mTicksPerSecond (mAnimations sc ! currentAnimation m)
                                 else 25)))
                     (Fin (mTime key)))) \<and>
         (\<forall>L m' transforms.
            boneTransform L m time = Inr (m', transforms) \<longrightarrow> animDuration m' = mTime key)"
proof -
  note v = boneTransform_time_value [OF assms, of time]
  have "\<forall>L m' transforms.
          boneTransform L m time = Inr (m', transforms) \<longrightarrow> animDuration m' = mTime key"
  proof (intro allI impI)
    fix L :: "('a, 'b) library" and m' transforms
    assume "boneTransform L m time = Inr (m', transforms)"
    from boneTransform_unfold [OF this] obtain d t sc' where
      bt: "boneTransform_time m time = Inr (d, t)" and sc': "scene m = Some sc'" and
      r: "readNodeHeirarchy L (m\<lparr>animDuration := d\<rparr>) t (mRootNode sc') 1 = Inr m'"
      by blast
    from readNodeHeirarchy_frame [OF r] have "m' = m\<lparr>animDuration := d, boneMatrices := boneMatrices m'\<rparr>"
      by (simp add: only_finals_def)
    then have "animDuration m' = animDuration (m\<lparr>animDuration := d, boneMatrices := boneMatrices m'\<rparr>)"
      by simp
    then have "animDuration m' = d" by simp
    with bt v show "animDuration m' = mTime key" by simp
  qed
  with v show ?thesis by simp
qed

theorem duration_from_channel0_witness:
  "boneTransform_time sample_loaded 1 = Inr (53, Fin 25) \<and>
   map_option animDuration (model_of (boneTransform sample_library sample_loaded 1)) = Some 53"
  using duration_from_channel0 [of sample_loaded sample_scene
      "\<lparr>mNodeName = ''hip'',
        mPositionKeys = [\<lparr>mTime = 53, mValue = (2, 0, 0)\<rparr>],
        mRotationKeys = [\<lparr>mTime = 0, mValue = 1\<rparr>],
        mScalingKeys = [\<lparr>mTime = 0, mValue = (2, 3, 1)\<rparr>]\<rparr>"
      "[\<lparr>mNodeName = ''knee'',
          mPositionKeys = [\<lparr>mTime = 0, mValue = (1, 0, 0)\<rparr>],
          mRotationKeys = [\<lparr>mTime = 0, mValue = 1\<rparr>, \<lparr>mTime = 100, mValue = 3\<rparr>],
          mScalingKeys = [\<lparr>mTime = 0, mValue = (1, 1, 1)\<rparr>]\<rparr>]"
      "[]" "\<lparr>mTime = 53, mValue = (2, 0, 0)\<rparr>" 1]
  by (simp add: sample_defs eval_defs)

lemma fmod_self: "d \<noteq> 0 \<Longrightarrow> fmod (Fin d) (Fin d) = Fin 0"
  by simp

lemma fmod_zero: "d \<noteq> 0 \<Longrightarrow> fmod (Fin 0) (Fin d) = Fin 0"
  by simp

lemma fmod_by_zero: "fmod x (Fin 0) = NaN"
  by (cases x) simp_all

lemma fmod_infinite: "fmod PInf y = NaN" "fmod NInf y = NaN"
  by simp_all

lemma f32_25: "f32 25 = Fin 25"
  by code_simp

text \<open>The largest \<open>float\<close> is below \<open>2 ^ 128\<close>: the product of \<open>2 ^ 124\<close> and 25 is an infinity.\<close>

lemma expo_down_scale: "1 \<le> c \<Longrightarrow> expo_down (c * 2 ^ n) = expo_down c + int n"
proof (induction n)
  case 0
  then show ?case by simp
next
  case (Suc n)
  have "1 \<le> (2::rat) ^ n" by simp
  with Suc.prems have "1 * 1 \<le> c * 2 ^ n" by (intro mult_mono) simp_all
  then have "2 \<le> c * 2 ^ Suc n" by simp
  then have "expo_down (c * 2 ^ Suc n) = expo_down (c * 2 ^ Suc n / 2) + 1"
    by (subst expo_down.simps) simp
  also have "c * 2 ^ Suc n / 2 = c * 2 ^ n" by simp
  finally show ?case using Suc.IH [OF Suc.prems] by simp
qed

lemma expo_down_25: "expo_down 25 = 4"
  by code_simp

lemma expo_overflow: "expo (2 ^ 124 * 25) = 128"
proof -
  have "expo_down (25 * 2 ^ 124) = 128"
    using expo_down_scale [of 25 124] by (simp only: expo_down_25)
  moreover have "(25::rat) * 2 ^ 124 = 2 ^ 124 * 25" by simp
  moreover have "1 \<le> \<bar>(2::rat) ^ 124 * 25\<bar>" by simp
  ultimately show ?thesis by (simp only: expo_def if_True) simp
qed

lemma f32_overflow: "f32 (2 ^ 124 * 25) = PInf"
  unfolding f32_def round_fl_def Let_def expo_overflow round_even_def
  by (simp add: power_int_def)

text \<open>
  C7, amended.  For a clip whose ticks-per-second value is 0 the evaluation uses 25: the
  animation time is \<open>fmod\<close> of the \<open>float\<close> product \<open>timeInSeconds * 25\<close> and the duration,
  stored in a \<open>float\<close>.  When the duration is not 0, it is 0 at \<open>timeInSeconds = 0\<close>, and
  it is 0 at every time whose \<open>float\<close> product with 25 is the duration exactly.  When the
  duration is 0 it is NaN at every time, and it is NaN at every time whose \<open>float\<close> product
  with 25 is an infinity (as at \<open>timeInSeconds = 2 ^ 124\<close>).
\<close>

theorem zero_ticks_per_second:
  assumes "scene m = Some sc"
    and "currentAnimation m < length (mAnimations sc)"
    and "mTicksPerSecond (mAnimations sc ! currentAnimation m) = 0"
    and "mChannels (mAnimations sc ! currentAnimation m) = channel # channels"
    and "mPositionKeys channel = keys @ [key]"
    and "length (mPositionKeys channel) < 2 ^ 32"
  shows "boneTransform_time m time =
           Inr (mTime key, to_float (fmod (f32 (time * 25)) (Fin (mTime key)))) \<and>
         (mTime key \<noteq> 0 \<longrightarrow>
            boneTransform_time m 0 = Inr (mTime key, Fin 0) \<and>
            (f32 (time * 25) = Fin (mTime key) \<longrightarrow>
               boneTransform_time m time = Inr (mTime key, Fin 0))) \<and>
         (mTime key = 0 \<longrightarrow> boneTransform_time m time = Inr (mTime key, NaN)) \<and>
         (f32 (time * 25) = PInf \<or> f32 (time * 25) = NInf \<longrightarrow>
            boneTransform_time m time = Inr (mTime key, NaN))"
proof -
  note v = boneTransform_time_value [OF assms(1,2,4,5,6)]
  have a: "boneTransform_time m time =
           Inr (mTime key, to_float (fmod (f32 (time * 25)) (Fin (mTime key))))"
    using v [of time] assms(3) by (simp add: f32_25)
  have b: "mTime key \<noteq> 0 \<longrightarrow> boneTransform_time m 0 = Inr (mTime key, Fin 0)"
    using v [of 0] assms(3) by (simp add: f32_25 f32_0)
  have c: "mTime key \<noteq> 0 \<longrightarrow> f32 (time * 25) = Fin (mTime key) \<longrightarrow>
             boneTransform_time m time = Inr (mTime key, Fin 0)"
    using a by (simp add: f32_0)
  have d: "mTime key = 0 \<longrightarrow> boneTransform_time m time = Inr (mTime key, NaN)"
    using a by (simp add: fmod_by_zero)
  have e: "f32 (time * 25) = PInf \<or> f32 (time * 25) = NInf \<longrightarrow>
             boneTransform_time m time = Inr (mTime key, NaN)"
    using a by (auto simp add: fmod_infinite)
  from a b c d e show ?thesis by simp
qed

lemma sample_wrap_roundings:
  "f32 50 = Fin 50"
  "to_float (f64 (53 / 25)) = Fin (2222981 / 1048576)"
  "f32 (55574525 / 1048576) = Fin (13893631 / 262144)"
  "f32 (13893631 / 262144) = Fin (13893631 / 262144)"
  by code_simp+

theorem zero_ticks_per_second_witness:
  "boneTransform_time (sample_loaded\<lparr>currentAnimation := 2\<rparr>) 2 = Inr (50, Fin 0) \<and>
   boneTransform_time (sample_loaded\<lparr>currentAnimation := 2\<rparr>) 0 = Inr (50, Fin 0) \<and>
   boneTransform_time sample_still 1 = Inr (0, NaN) \<and>
   f32 (2 ^ 124 * 25) = PInf \<and>
   boneTransform_time (sample_loaded\<lparr>currentAnimation := 2\<rparr>) (2 ^ 124) = Inr (50, NaN)"
  using zero_ticks_per_second [of "sample_loaded\<lparr>currentAnimation := 2\<rparr>" sample_scene
      "\<lparr>mNodeName = ''prop'',
          mPositionKeys = [\<lparr>mTime = 0, mValue = (0, 0, 0)\<rparr>, \<lparr>mTime = 50, mValue = (4, 0, 0)\<rparr>],
          mRotationKeys = [\<lparr>mTime = 0, mValue = 1\<rparr>],
          mScalingKeys = [\<lparr>mTime = 0, mValue = (1, 1, 1)\<rparr>]\<rparr>"
      "[]" "[\<lparr>mTime = 0, mValue = (0, 0, 0)\<rparr>]" "\<lparr>mTime = 50, mValue = (4, 0, 0)\<rparr>" "2 ^ 124"]
    f32_overflow
    zero_ticks_per_second [of "sample_loaded\<lparr>currentAnimation := 2\<rparr>" sample_scene
      "\<lparr>mNodeName = ''prop'',
          mPositionKeys = [\<lparr>mTime = 0, mValue = (0, 0, 0)\<rparr>, \<lparr>mTime = 50, mValue = (4, 0, 0)\<rparr>],
          mRotationKeys = [\<lparr>mTime = 0, mValue = 1\<rparr>],
          mScalingKeys = [\<lparr>mTime = 0, mValue = (1, 1, 1)\<rparr>]\<rparr>"
      "[]" "[\<lparr>mTime = 0, mValue = (0, 0, 0)\<rparr>]" "\<lparr>mTime = 50, mValue = (4, 0, 0)\<rparr>" 2]
    zero_ticks_per_second [of sample_still
      "sample_scene\<lparr>mAnimations :=
       [\<lparr>mTicksPerSecond = 0,
         mChannels =
           [\<lparr>mNodeName = ''hip'',
             mPositionKeys = [\<lparr>mTime = 0, mValue = (2, 0, 0)\<rparr>],
             mRotationKeys = [\<lparr>mTime = 0, mValue = 1\<rparr>],
             mScalingKeys = [\<lparr>mTime = 0, mValue = (1, 1, 1)\<rparr>]\<rparr>]\<rparr>]\<rparr>"
      "\<lparr>mNodeName = ''hip'',
             mPositionKeys = [\<lparr>mTime = 0, mValue = (2, 0, 0)\<rparr>],
             mRotationKeys = [\<lparr>mTime = 0, mValue = 1\<rparr>],
             mScalingKeys = [\<lparr>mTime = 0, mValue = (1, 1, 1)\<rparr>]\<rparr>"
      "[]" "[]" "\<lparr>mTime = 0, mValue = (2, 0, 0)\<rparr>" 1]
  by (simp add: sample_still_def sample_defs eval_defs sample_wrap_roundings)

text \<open>
  C7 as stated fails.  The sample clip has ticks-per-second 0 and duration 53.  The
  \<open>float\<close> nearest to \<open>53 / 25\<close> is \<open>2222981 / 1048576\<close>; its \<open>float\<close> product with 25 is
  \<open>53 - 2 ^ -18\<close>, just below the duration, so the wrap leaves it there: the animation
  time is \<open>13893631 / 262144\<close>, not the 0 of \<open>timeInSeconds = 0\<close>.
\<close>

theorem zero_ticks_per_second_counterexample:
  "to_float (f64 (53 / 25)) = Fin (2222981 / 1048576) \<and>
   boneTransform_time sample_loaded (2222981 / 1048576) = Inr (53, Fin (13893631 / 262144)) \<and>
   boneTransform_time sample_loaded 0 = Inr (53, Fin 0)"
proof -
  have "boneTransform_time sample_loaded (2222981 / 1048576) = Inr (53, Fin (13893631 / 262144))"
    by (simp add: sample_defs boneTransform_time_def nth_chk_def Let_def f32_25
          sample_wrap_roundings floor_divide_rat_numeral)
  moreover have "boneTransform_time sample_loaded 0 = Inr (53, Fin 0)"
    by (simp add: sample_defs eval_defs)
  ultimately show ?thesis by (simp add: sample_wrap_roundings)
qed

section \<open>Loading: what it keeps, and missing textures\<close>

lemma same_setup_refl: "same_setup m m"
  by (simp add: same_setup_def)

lemma same_setup_trans: "same_setup a b \<Longrightarrow> same_setup b c \<Longrightarrow> same_setup a c"
  by (simp add: same_setup_def)

lemma bindBone_setup: "bindBone m bone = Inr (i, m') \<Longrightarrow> same_setup m m'"
  by (auto simp add: bindBone_def Let_def same_setup_def split: option.splits if_splits)

lemma processBones_setup: "processBones m bones vs = Inr (m', vs') \<Longrightarrow> same_setup m m'"
proof (induction bones arbitrary: m vs)
  case Nil
  then show ?case by (simp add: same_setup_refl)
next
  case (Cons bone bones)
  from Cons.prems obtain b m1 vs1 where
    bb: "bindBone m bone = Inr (b, m1)" and
    rest: "processBones m1 bones vs1 = Inr (m', vs')"
    by (auto split: sum.splits)
  from bindBone_setup [OF bb] Cons.IH [OF rest] show ?case by (rule same_setup_trans)
qed

lemma loadTextures_result:
  "loadTextures stbi_load typeName strs m w ts = (m', w', ts') \<Longrightarrow>
     same_setup m m' \<and> length ts' = length ts + length strs"
proof (induction strs arbitrary: m w ts)
  case Nil
  then show ?case by (simp add: same_setup_refl)
next
  case (Cons str strs)
  show ?case
  proof (cases "findLoaded (loadedTextures m) str")
    case (Some t)
    with Cons.prems have "loadTextures stbi_load typeName strs m w (ts @ [t]) = (m', w', ts')"
      by simp
    from Cons.IH [OF this] show ?thesis by simp
  next
    case None
    obtain textureID w1 where tf: "TextureFromFile stbi_load w str (directory m) = (textureID, w1)"
      by (cases "TextureFromFile stbi_load w str (directory m)")
    let ?t = "\<lparr>ID = textureID, Type = typeName, Path = str\<rparr>"
    let ?m1 = "m\<lparr>loadedTextures := loadedTextures m @ [?t]\<rparr>"
    from Cons.prems None tf have
      "loadTextures stbi_load typeName strs ?m1 w1 (ts @ [?t]) = (m', w', ts')"
      by (simp add: Let_def)
    from Cons.IH [OF this] have "same_setup ?m1 m'" and l: "length ts' = length ts + length (str # strs)"
      by simp_all
    moreover have "same_setup m ?m1" by (simp add: same_setup_def)
    ultimately show ?thesis using same_setup_trans by blast
  qed
qed

lemma loadMaterialTextures_result:
  "loadMaterialTextures stbi_load m w mat type typeName = (m', w', ts') \<Longrightarrow>
     same_setup m m' \<and> length ts' = length (mat type)"
  using loadTextures_result [of stbi_load typeName "mat type" m w "[]" m' w' ts']
  by (simp add: loadMaterialTextures_def)

lemma processMesh_result:
  assumes "processMesh fresh stbi_load m w mesh = Inr (me, m', w')"
  shows "same_setup m m' \<and>
         (\<exists>sc mat. scene m = Some sc \<and> mMaterialIndex mesh < length (mMaterials sc) \<and>
            mat = mMaterials sc ! mMaterialIndex mesh \<and>
            length (textures me) =
              length (mat aiTextureType_DIFFUSE) + length (mat aiTextureType_SPECULAR) +
              length (mat aiTextureType_HEIGHT) + length (mat aiTextureType_EMISSIVE))"
proof -
  from assms obtain vs m1 vs1 sc mat m2 w2 t2 m3 w3 t3 m4 w4 t4 t5 where
    pb: "processBones m (mBones mesh) vs = Inr (m1, vs1)" and
    sc: "scene m1 = Some sc" and
    mat: "nth_chk (mMaterials sc) (mMaterialIndex mesh) = Inr mat" and
    l2: "loadMaterialTextures stbi_load m1 w mat aiTextureType_DIFFUSE ''texture_diffuse'' = (m2, w2, t2)" and
    l3: "loadMaterialTextures stbi_load m2 w2 mat aiTextureType_SPECULAR ''texture_specular'' = (m3, w3, t3)" and
    l4: "loadMaterialTextures stbi_load m3 w3 mat aiTextureType_HEIGHT ''texture_normal'' = (m4, w4, t4)" and
    l5: "loadMaterialTextures stbi_load m4 w4 mat aiTextureType_EMISSIVE ''texture_emission'' = (m', w', t5)" and
    me: "textures me = t2 @ t3 @ t4 @ t5"
    by (auto simp add: processMesh_def split: sum.splits option.splits prod.splits)
  note s1 = processBones_setup [OF pb]
  note r2 = loadMaterialTextures_result [OF l2]
  note r3 = loadMaterialTextures_result [OF l3]
  note r4 = loadMaterialTextures_result [OF l4]
  note r5 = loadMaterialTextures_result [OF l5]
  have "same_setup m m'"
    using s1 r2 r3 r4 r5 by (simp add: same_setup_def)
  moreover have "scene m = Some sc" using s1 sc by (simp add: same_setup_def)
  moreover have "mMaterialIndex mesh < length (mMaterials sc)"
    and "mat = mMaterials sc ! mMaterialIndex mesh"
    using mat by (simp_all add: nth_chk_def split: if_splits)
  ultimately show ?thesis using me r2 r3 r4 r5 by simp
qed









section \<open>The evaluator: the final transformations\<close>

lemma only_finals_setup: "only_finals m m' \<Longrightarrow> same_setup m m' \<and> boneMapping m' = boneMapping m"
proof -
  assume "only_finals m m'"
  then have e: "m' = m\<lparr>boneMatrices := boneMatrices m'\<rparr>" by (simp add: only_finals_def)
  have "scene m' = scene (m\<lparr>boneMatrices := boneMatrices m'\<rparr>)"
    "globalInverseTransform m' = globalInverseTransform (m\<lparr>boneMatrices := boneMatrices m'\<rparr>)"
    "currentAnimation m' = currentAnimation (m\<lparr>boneMatrices := boneMatrices m'\<rparr>)"
    "boneMapping m' = boneMapping (m\<lparr>boneMatrices := boneMatrices m'\<rparr>)"
    using e by simp_all
  then show ?thesis by (simp add: same_setup_def)
qed

lemma readChildren_spec:
  assumes ih: "\<And>c m P m'. c \<in> set cs \<Longrightarrow> scene m = Some sc \<Longrightarrow>
            readNodeHeirarchy L m t c P = Inr m' \<Longrightarrow>
            \<exists>vs. spec_globals L (mAnimations sc ! currentAnimation m) t c P = Inr vs \<and>
                 m' = foldl spec_write m vs \<and> map fst vs = node_names c"
  shows "scene m = Some sc \<Longrightarrow> readChildren L m t cs P = Inr m' \<Longrightarrow>
           \<exists>vs. spec_globals_list L (mAnimations sc ! currentAnimation m) t cs P = Inr vs \<and>
                m' = foldl spec_write m vs \<and> map fst vs = concat (map node_names cs)"
  using ih
proof (induction cs arbitrary: m)
  case Nil
  then show ?case by simp
next
  case (Cons c cs)
  from Cons.prems(2) obtain m1 where
    a: "readNodeHeirarchy L m t c P = Inr m1" and b: "readChildren L m1 t cs P = Inr m'"
    by (auto split: sum.splits)
  from Cons.prems(3) [OF _ Cons.prems(1) a] obtain vs1 where
    g1: "spec_globals L (mAnimations sc ! currentAnimation m) t c P = Inr vs1" and
    m1: "m1 = foldl spec_write m vs1" and n1: "map fst vs1 = node_names c"
    by auto
  from only_finals_setup [OF readNodeHeirarchy_frame [OF a]] Cons.prems(1)
  have sc1: "scene m1 = Some sc" and ca: "currentAnimation m1 = currentAnimation m"
    by (simp_all add: same_setup_def)
  have "\<exists>vs. spec_globals_list L (mAnimations sc ! currentAnimation m1) t cs P = Inr vs \<and>
                m' = foldl spec_write m1 vs \<and> map fst vs = concat (map node_names cs)"
  proof (rule Cons.IH [OF sc1 b])
    fix ca ma Pa ma'
    assume "ca \<in> set cs" and "scene ma = Some sc" and "readNodeHeirarchy L ma t ca Pa = Inr ma'"
    then show "\<exists>vs. spec_globals L (mAnimations sc ! currentAnimation ma) t ca Pa = Inr vs \<and>
                 ma' = foldl spec_write ma vs \<and> map fst vs = node_names ca"
      using Cons.prems(3) [of ca ma Pa ma'] by simp
  qed
  then obtain vs2 where
    g2: "spec_globals_list L (mAnimations sc ! currentAnimation m) t cs P = Inr vs2" and
    m2: "m' = foldl spec_write m1 vs2" and n2: "map fst vs2 = concat (map node_names cs)"
    by (auto simp add: ca)
  show ?case
    using g1 g2 m1 m2 n1 n2 by simp
qed

lemma readNodeHeirarchy_spec:
  "scene m = Some sc \<Longrightarrow> readNodeHeirarchy L m t node P = Inr m' \<Longrightarrow>
     \<exists>vs. spec_globals L (mAnimations sc ! currentAnimation m) t node P = Inr vs \<and>
          m' = foldl spec_write m vs \<and> map fst vs = node_names node"
proof (induction node arbitrary: m P m')
  case (aiNode name tr ms cs)
  from readNodeHeirarchy_unfold [OF aiNode.prems(2)] aiNode.prems(1) obtain loc where
    l: "spec_local L (mAnimations sc ! currentAnimation m) t (aiNode name tr ms cs) = Inr loc" and
    r: "readChildren L (spec_write m (name, P * loc)) t cs (P * loc) = Inr m'"
    by auto
  let ?m1 = "spec_write m (name, P * loc)"
  from only_finals_setup [OF only_finals_write, of m "(name, P * loc)"] aiNode.prems(1)
  have sc1: "scene ?m1 = Some sc" and ca: "currentAnimation ?m1 = currentAnimation m"
    by (simp_all add: same_setup_def)
  have "\<exists>vs. spec_globals_list L (mAnimations sc ! currentAnimation ?m1) t cs (P * loc) = Inr vs \<and>
          m' = foldl spec_write ?m1 vs \<and> map fst vs = concat (map node_names cs)"
    using aiNode.IH sc1 r by (rule readChildren_spec)
  then obtain vs where
    g: "spec_globals_list L (mAnimations sc ! currentAnimation m) t cs (P * loc) = Inr vs" and
    m': "m' = foldl spec_write ?m1 vs" and n: "map fst vs = concat (map node_names cs)"
    by (auto simp add: ca)
  show ?case
    using l g m' n by simp
qed

lemma processNodeMeshes_setup:
  "processNodeMeshes fresh stbi_load is m w = Inr (m', w') \<Longrightarrow> same_setup m m'"
proof (induction "is" arbitrary: m w)
  case Nil
  then show ?case by (simp add: same_setup_refl)
next
  case (Cons i "is")
  from Cons.prems obtain sc mesh me m1 w1 where
    pm: "processMesh (fresh i) stbi_load m w mesh = Inr (me, m1, w1)" and
    rest: "processNodeMeshes fresh stbi_load is (m1\<lparr>meshes := meshes m1 @ [me]\<rparr>) w1 = Inr (m', w')"
    by (auto split: sum.splits option.splits)
  from processMesh_result [OF pm] have "same_setup m m1" by simp
  moreover have "same_setup m1 (m1\<lparr>meshes := meshes m1 @ [me]\<rparr>)" by (simp add: same_setup_def)
  moreover note Cons.IH [OF rest]
  ultimately show ?case using same_setup_trans by blast
qed

lemma processChildren_setup:
  fixes m :: "('q, 'm::zero) Model"
  assumes "\<And>c m w m' w'. c \<in> set cs \<Longrightarrow>
             processNode fresh stbi_load c (m :: ('q, 'm) Model) w = Inr (m', w') \<Longrightarrow>
             same_setup m m'"
  shows "processChildren fresh stbi_load cs m w = Inr (m', w') \<Longrightarrow> same_setup m m'"
  using assms
proof (induction cs arbitrary: m w)
  case Nil
  then show ?case by (simp add: same_setup_refl)
next
  case (Cons c cs)
  from Cons.prems(1) obtain m1 w1 where
    a: "processNode fresh stbi_load c m w = Inr (m1, w1)" and
    b: "processChildren fresh stbi_load cs m1 w1 = Inr (m', w')"
    by (auto split: sum.splits)
  have "same_setup m m1" by (rule Cons.prems(2) [OF _ a]) simp
  moreover have "same_setup m1 m'"
  proof (rule Cons.IH [OF b])
    fix ca and ma :: "('q, 'm) Model" and wa ma' wa'
    assume "ca \<in> set cs" and "processNode fresh stbi_load ca ma wa = Inr (ma', wa')"
    then show "same_setup ma ma'" using Cons.prems(2) [of ca ma wa ma' wa'] by simp
  qed
  ultimately show ?case by (rule same_setup_trans)
qed

lemma processNode_setup:
  fixes m :: "('q, 'm::zero) Model"
  shows "processNode fresh stbi_load node m w = Inr (m', w') \<Longrightarrow> same_setup m m'"
proof (induction node arbitrary: m w m' w')
  case (aiNode name tr ms cs)
  from aiNode.prems obtain m1 w1 where
    a: "processNodeMeshes fresh stbi_load ms m w = Inr (m1, w1)" and
    b: "processChildren fresh stbi_load cs m1 w1 = Inr (m', w')"
    by (auto split: sum.splits)
  have "same_setup m1 m'" using b aiNode.IH by (rule processChildren_setup [rotated])
  with processNodeMeshes_setup [OF a] show ?case by (rule same_setup_trans)
qed

lemma InitFromScene_setup:
  assumes "InitFromScene L fresh stbi_load m0 w0 sc = Inr (m, w)"
  shows "scene m = Some sc \<and>
         globalInverseTransform m = glm_inverse L (mTransformation (mRootNode sc)) \<and>
         currentAnimation m = currentAnimation m0"
proof -
  from assms obtain tps where
    "processNode fresh stbi_load (mRootNode sc)
       (m0\<lparr>scene := Some sc,
           globalInverseTransform := glm_inverse L (mTransformation (mRootNode sc)),
           ticksPerSecond := tps\<rparr>) w0 = Inr (m, w)"
    by (auto simp add: InitFromScene_def Let_def split: sum.splits if_splits)
  from processNode_setup [OF this] show ?thesis by (simp add: same_setup_def)
qed

text \<open>
  C1.  Load a scene with \<open>InitFromScene\<close> and evaluate with \<open>boneTransform\<close>.  The walk
  visits every node of the scene's tree, each with the global transform
  \<open>parentGlobal * local\<close> (\<open>spec_globals\<close>, started at the root with the identity), where
  the local transform of a node with a channel in the current clip is
  \<open>translate(T) * rotate(R) * scale(S)\<close> (\<open>spec_local\<close>); the model returned is the model
  with, for each visited node in turn whose name is a registered bone,
  \<open>FinalTransformation[boneIndex] = globalInverseTransform * global * BoneOffset[boneIndex]\<close>
  written (\<open>spec_write\<close>); and \<open>globalInverseTransform\<close> is the inverse of the root node's
  transform, set by \<open>InitFromScene\<close>.
\<close>

theorem final_transformations:
  assumes "InitFromScene L fresh stbi_load m0 w0 sc = Inr (m, w)"
    and "boneTransform L m time = Inr (m', transforms)"
  shows "\<exists>d t vs. boneTransform_time m time = Inr (d, t) \<and>
           spec_globals L (mAnimations sc ! currentAnimation m) t (mRootNode sc) 1 = Inr vs \<and>
           map fst vs = node_names (mRootNode sc) \<and>
           globalInverseTransform m = glm_inverse L (mTransformation (mRootNode sc)) \<and>
           m' = foldl spec_write (m\<lparr>animDuration := d\<rparr>) vs \<and>
           transforms = map FinalTransformation (take (bonesCount m) (boneMatrices m'))"
proof -
  note i = InitFromScene_setup [OF assms(1)]
  from boneTransform_unfold [OF assms(2)] i obtain d t where
    bt: "boneTransform_time m time = Inr (d, t)" and
    r: "readNodeHeirarchy L (m\<lparr>animDuration := d\<rparr>) t (mRootNode sc) 1 = Inr m'" and
    tr: "transforms = map FinalTransformation (take (bonesCount m') (boneMatrices m'))"
    by auto
  have sc: "scene (m\<lparr>animDuration := d\<rparr>) = Some sc" using i by simp
  from readNodeHeirarchy_spec [OF sc r] obtain vs where
    g: "spec_globals L (mAnimations sc ! currentAnimation m) t (mRootNode sc) 1 = Inr vs" and
    m': "m' = foldl spec_write (m\<lparr>animDuration := d\<rparr>) vs" and
    n: "map fst vs = node_names (mRootNode sc)"
    by auto
  from readNodeHeirarchy_frame [OF r] have "m' = m\<lparr>animDuration := d, boneMatrices := boneMatrices m'\<rparr>"
    by (simp add: only_finals_def)
  then have "bonesCount m' = bonesCount (m\<lparr>animDuration := d, boneMatrices := boneMatrices m'\<rparr>)"
    by simp
  then have bc: "bonesCount m' = bonesCount m" by simp
  show ?thesis
    using bt g n i m' tr bc by auto
qed

lemmas init_defs =
  InitFromScene_def sample_defs run_defs sample_library_def

theorem final_transformations_witness:
  "map_sum id snd (boneTransform sample_library sample_model 1)
     = Inr [Mat2 4 1 2 2, Mat2 (- 9 / 2) (- 6) 0 (- 3)]"
  using final_transformations [of sample_library "\<lambda>i v. sample_vertex 7" sample_files sample_new
      sample_world sample_scene sample_model
      "snd (projr (InitFromScene sample_library (\<lambda>i v. sample_vertex 7) sample_files sample_new
         sample_world sample_scene))"
      1
      "fst (projr (boneTransform sample_library sample_model 1))"
      "snd (projr (boneTransform sample_library sample_model 1))"]
  by (simp add: sample_model_def init_defs eval_defs)

section \<open>The bone registry\<close>

text \<open>
  The registry is written by the bone loop of \<open>processMesh\<close> only; the texture loader and
  the node walk pass it on.  So loading a scene binds the bones of \<open>scene_bones\<close>, one
  after the other, from the registry of the model it was given.
\<close>

lemma same_registry_refl: "same_registry m m"
  by (simp add: same_registry_def)

lemma same_registry_sym: "same_registry a b \<Longrightarrow> same_registry b a"
  by (simp add: same_registry_def)

lemma same_registry_trans: "same_registry a b \<Longrightarrow> same_registry b c \<Longrightarrow> same_registry a c"
  by (simp add: same_registry_def)

lemma bindBone_registry:
  assumes "same_registry m n" and "bindBone m bone = Inr (i, m')"
  shows "\<exists>n'. bindBone n bone = Inr (i, n') \<and> same_registry m' n'"
  using assms
  by (auto simp add: bindBone_def same_registry_def Let_def split: option.splits if_splits)

lemma bindAll_registry:
  "same_registry m n \<Longrightarrow> bindAll m bones = Inr (is, m') \<Longrightarrow>
     \<exists>n'. bindAll n bones = Inr (is, n') \<and> same_registry m' n'"
proof (induction bones arbitrary: m n "is")
  case Nil
  then show ?case by simp
next
  case (Cons bone bones)
  from Cons.prems(2) obtain b m1 js where
    bb: "bindBone m bone = Inr (b, m1)" and r: "bindAll m1 bones = Inr (js, m')" and
    i: "is = b # js"
    by (auto split: sum.splits)
  from bindBone_registry [OF Cons.prems(1) bb] obtain n1 where
    nb: "bindBone n bone = Inr (b, n1)" and s1: "same_registry m1 n1"
    by blast
  from Cons.IH [OF s1 r] obtain n' where
    nr: "bindAll n1 bones = Inr (js, n')" and s': "same_registry m' n'"
    by blast
  have "bindAll n (bone # bones) = Inr (is, n')" by (simp add: nb nr i)
  with s' show ?case by (intro exI conjI)
qed

lemma bindAll_append:
  "bindAll m xs = Inr (is, m1) \<Longrightarrow> bindAll m1 ys = Inr (js, m2) \<Longrightarrow>
     bindAll m (xs @ ys) = Inr (is @ js, m2)"
proof (induction xs arbitrary: m "is")
  case Nil
  then show ?case by simp
next
  case (Cons x xs)
  from Cons.prems(1) obtain b ma ks where
    bb: "bindBone m x = Inr (b, ma)" and r: "bindAll ma xs = Inr (ks, m1)" and i: "is = b # ks"
    by (auto split: sum.splits)
  from Cons.IH [OF r Cons.prems(2)] show ?case by (simp add: bb i)
qed

lemma binds_nil: "same_registry m m' \<Longrightarrow> binds m [] m'"
  by (simp add: binds_def)

lemma binds_registry: "binds m xs m1 \<Longrightarrow> same_registry m1 m2 \<Longrightarrow> binds m xs m2"
  unfolding binds_def using same_registry_trans by blast

lemma binds_append:
  assumes "binds m xs m1" and "binds m1 ys m2"
  shows "binds m (xs @ ys) m2"
proof -
  from assms(1) obtain "is" mb where
    a: "bindAll m xs = Inr (is, mb)" and sa: "same_registry mb m1"
    unfolding binds_def by blast
  from assms(2) obtain js mc where
    b: "bindAll m1 ys = Inr (js, mc)" and sb: "same_registry mc m2"
    unfolding binds_def by blast
  from bindAll_registry [OF same_registry_sym [OF sa] b] obtain mc' where
    b': "bindAll mb ys = Inr (js, mc')" and sc: "same_registry mc mc'"
    by blast
  have "bindAll m (xs @ ys) = Inr (is @ js, mc')" using a b' by (rule bindAll_append)
  moreover have "same_registry mc' m2"
    using same_registry_sym [OF sc] sb by (rule same_registry_trans)
  ultimately show ?thesis unfolding binds_def by (intro exI conjI)
qed

lemma binds_start:
  assumes "same_registry n m" and "binds m xs m'"
  shows "binds n xs m'"
proof -
  from assms(2) obtain "is" mb where
    a: "bindAll m xs = Inr (is, mb)" and sa: "same_registry mb m'"
    unfolding binds_def by blast
  from bindAll_registry [OF same_registry_sym [OF assms(1)] a] obtain nb where
    b: "bindAll n xs = Inr (is, nb)" and sb: "same_registry mb nb"
    by blast
  have "same_registry nb m'" using same_registry_sym [OF sb] sa by (rule same_registry_trans)
  with b show ?thesis unfolding binds_def by (intro exI conjI)
qed

lemma loadTextures_registry:
  "loadTextures stbi_load typeName strs m w ts = (m', w', ts') \<Longrightarrow> same_registry m m'"
proof (induction strs arbitrary: m w ts)
  case Nil
  then show ?case by (simp add: same_registry_refl)
next
  case (Cons str strs)
  show ?case
  proof (cases "findLoaded (loadedTextures m) str")
    case (Some t)
    with Cons.prems have "loadTextures stbi_load typeName strs m w (ts @ [t]) = (m', w', ts')"
      by simp
    from Cons.IH [OF this] show ?thesis .
  next
    case None
    obtain textureID w1 where tf: "TextureFromFile stbi_load w str (directory m) = (textureID, w1)"
      by (cases "TextureFromFile stbi_load w str (directory m)")
    let ?t = "\<lparr>ID = textureID, Type = typeName, Path = str\<rparr>"
    let ?m1 = "m\<lparr>loadedTextures := loadedTextures m @ [?t]\<rparr>"
    from Cons.prems None tf have
      "loadTextures stbi_load typeName strs ?m1 w1 (ts @ [?t]) = (m', w', ts')"
      by (simp add: Let_def)
    from Cons.IH [OF this] have "same_registry ?m1 m'" .
    moreover have "same_registry m ?m1" by (simp add: same_registry_def)
    ultimately show ?thesis using same_registry_trans by blast
  qed
qed

lemma loadMaterialTextures_registry:
  "loadMaterialTextures stbi_load m w mat type typeName = (m', w', ts') \<Longrightarrow> same_registry m m'"
  by (simp add: loadMaterialTextures_def loadTextures_registry)

lemma processMesh_binds:
  assumes "processMesh fresh stbi_load m w mesh = Inr (me, m', w')"
  shows "binds m (mBones mesh) m'"
proof -
  from assms obtain vs m1 vs1 sc mat m2 w2 t2 m3 w3 t3 m4 w4 t4 t5 where
    pb: "processBones m (mBones mesh) vs = Inr (m1, vs1)" and
    l2: "loadMaterialTextures stbi_load m1 w mat aiTextureType_DIFFUSE ''texture_diffuse'' = (m2, w2, t2)" and
    l3: "loadMaterialTextures stbi_load m2 w2 mat aiTextureType_SPECULAR ''texture_specular'' = (m3, w3, t3)" and
    l4: "loadMaterialTextures stbi_load m3 w3 mat aiTextureType_HEIGHT ''texture_normal'' = (m4, w4, t4)" and
    l5: "loadMaterialTextures stbi_load m4 w4 mat aiTextureType_EMISSIVE ''texture_emission'' = (m', w', t5)"
    by (auto simp add: processMesh_def split: sum.splits option.splits prod.splits)
  from processBones_bindAll [OF pb] obtain "is" where b: "bindAll m (mBones mesh) = Inr (is, m1)"
    by blast
  have "same_registry m1 m'"
    using loadMaterialTextures_registry [OF l2] loadMaterialTextures_registry [OF l3]
      loadMaterialTextures_registry [OF l4] loadMaterialTextures_registry [OF l5]
    by (simp add: same_registry_def)
  with b show ?thesis unfolding binds_def by (intro exI conjI)
qed

lemma processNodeMeshes_binds:
  "scene m = Some sc \<Longrightarrow> processNodeMeshes fresh stbi_load is m w = Inr (m', w') \<Longrightarrow>
     binds m (concat (map (\<lambda>i. mBones (mMeshes sc ! i)) is)) m'"
proof (induction "is" arbitrary: m w)
  case Nil
  then show ?case by (simp add: binds_nil same_registry_refl)
next
  case (Cons i "is")
  from Cons.prems obtain mesh me m1 w1 where
    mesh: "nth_chk (mMeshes sc) i = Inr mesh" and
    pm: "processMesh (fresh i) stbi_load m w mesh = Inr (me, m1, w1)" and
    rest: "processNodeMeshes fresh stbi_load is (m1\<lparr>meshes := meshes m1 @ [me]\<rparr>) w1 = Inr (m', w')"
    by (auto split: sum.splits option.splits)
  from mesh have me: "mesh = mMeshes sc ! i" by (simp add: nth_chk_def split: if_splits)
  let ?m2 = "m1\<lparr>meshes := meshes m1 @ [me]\<rparr>"
  from processMesh_result [OF pm] Cons.prems(1) have "scene ?m2 = Some sc"
    by (simp add: same_setup_def)
  from Cons.IH [OF this rest] have r: "binds ?m2 (concat (map (\<lambda>i. mBones (mMeshes sc ! i)) is)) m'" .
  have "same_registry m1 ?m2" by (simp add: same_registry_def)
  with processMesh_binds [OF pm] have "binds m (mBones mesh) ?m2" by (rule binds_registry)
  from binds_append [OF this r] show ?case by (simp add: me)
qed

lemma processChildren_binds:
  fixes m :: "('q, 'm::zero) Model"
  assumes "\<And>c m w m' w'. c \<in> set cs \<Longrightarrow> scene m = Some sc \<Longrightarrow>
             processNode fresh stbi_load c (m :: ('q, 'm) Model) w = Inr (m', w') \<Longrightarrow>
             binds m (node_bones sc c) m'"
  shows "scene m = Some sc \<Longrightarrow> processChildren fresh stbi_load cs m w = Inr (m', w') \<Longrightarrow>
           binds m (concat (map (node_bones sc) cs)) m'"
  using assms
proof (induction cs arbitrary: m w)
  case Nil
  then show ?case by (simp add: binds_nil same_registry_refl)
next
  case (Cons c cs)
  from Cons.prems(2) obtain m1 w1 where
    a: "processNode fresh stbi_load c m w = Inr (m1, w1)" and
    b: "processChildren fresh stbi_load cs m1 w1 = Inr (m', w')"
    by (auto split: sum.splits)
  have b1: "binds m (node_bones sc c) m1" by (rule Cons.prems(3) [OF _ Cons.prems(1) a]) simp
  from processNode_setup [OF a] Cons.prems(1) have sc1: "scene m1 = Some sc"
    by (simp add: same_setup_def)
  have "binds m1 (concat (map (node_bones sc) cs)) m'"
  proof (rule Cons.IH [OF sc1 b])
    fix ca and ma :: "('q, 'm) Model" and wa ma' wa'
    assume "ca \<in> set cs" and "scene ma = Some sc"
      and "processNode fresh stbi_load ca ma wa = Inr (ma', wa')"
    then show "binds ma (node_bones sc ca) ma'" using Cons.prems(3) [of ca ma wa ma' wa'] by simp
  qed
  from binds_append [OF b1 this] show ?case by simp
qed

lemma processNode_binds:
  fixes m :: "('q, 'm::zero) Model"
  shows "scene m = Some sc \<Longrightarrow> processNode fresh stbi_load node m w = Inr (m', w') \<Longrightarrow>
           binds m (node_bones sc node) m'"
proof (induction node arbitrary: m w m' w')
  case (aiNode name tr ms cs)
  from aiNode.prems(2) obtain m1 w1 where
    a: "processNodeMeshes fresh stbi_load ms m w = Inr (m1, w1)" and
    b: "processChildren fresh stbi_load cs m1 w1 = Inr (m', w')"
    by (auto split: sum.splits)
  note b1 = processNodeMeshes_binds [OF aiNode.prems(1) a]
  from processNodeMeshes_setup [OF a] aiNode.prems(1) have sc1: "scene m1 = Some sc"
    by (simp add: same_setup_def)
  have "binds m1 (concat (map (node_bones sc) cs)) m'"
    using aiNode.IH sc1 b by (rule processChildren_binds)
  from binds_append [OF b1 this] show ?case by simp
qed

lemma InitFromScene_binds:
  assumes "InitFromScene L fresh stbi_load m0 w0 sc = Inr (m, w)"
  shows "binds m0 (scene_bones sc) m"
proof -
  from assms obtain tps where
    p: "processNode fresh stbi_load (mRootNode sc)
       (m0\<lparr>scene := Some sc,
           globalInverseTransform := glm_inverse L (mTransformation (mRootNode sc)),
           ticksPerSecond := tps\<rparr>) w0 = Inr (m, w)"
    by (auto simp add: InitFromScene_def Let_def split: sum.splits if_splits)
  let ?m1 = "m0\<lparr>scene := Some sc,
           globalInverseTransform := glm_inverse L (mTransformation (mRootNode sc)),
           ticksPerSecond := tps\<rparr>"
  have "scene ?m1 = Some sc" by simp
  from processNode_binds [OF this p] have "binds ?m1 (scene_bones sc) m"
    by (simp add: scene_bones_def)
  moreover have "same_registry m0 ?m1" by (simp add: same_registry_def)
  ultimately show ?thesis by (rule binds_start [rotated])
qed

text \<open>
  C3.  Let a scene be loaded into a new model as \<open>LoadModelFromFilename\<close> does it
  (constructor, \<open>SetDirectory\<close>, \<open>InitFromScene\<close>), and let \<open>InitFromScene\<close> return; let
  the bones that \<open>processMesh\<close> binds on the way, over all meshes in the order of the node
  walk, have fewer than \<open>2 ^ 32\<close> distinct names (the range of the counter).  Then every
  bone is bound to an index, which is the one the loaded model maps its name to: equal
  names get equal indices, a name not seen before gets the number of distinct names
  seen before it (0, 1, 2, ...), the names of the loaded model's table are the names
  seen, and its \<open>bonesCount\<close> is the number of distinct names seen.
\<close>

theorem bind_idempotent_sequential:
  assumes "InitFromScene L fresh stbi_load (SetDirectory (Model_new g0) dir) w0 sc = Inr (m, w)"
    and "card (mBoneName ` set (scene_bones sc)) < 2 ^ 32"
  shows "\<exists>is mb. bindAll (Model_new g0) (scene_bones sc) = Inr (is, mb) \<and> same_registry mb m \<and>
           length is = length (scene_bones sc) \<and>
           (\<forall>k<length (scene_bones sc).
              boneMapping m (mBoneName (scene_bones sc ! k)) = Some (is ! k)) \<and>
           (\<forall>j<length (scene_bones sc). \<forall>k<length (scene_bones sc).
              mBoneName (scene_bones sc ! j) = mBoneName (scene_bones sc ! k) \<longrightarrow> is ! j = is ! k) \<and>
           (\<forall>k<length (scene_bones sc).
              mBoneName (scene_bones sc ! k) \<notin> mBoneName ` set (take k (scene_bones sc)) \<longrightarrow>
              is ! k = card (mBoneName ` set (take k (scene_bones sc)))) \<and>
           (\<forall>k<length (scene_bones sc).
              mBoneName (scene_bones sc ! k) \<notin> mBoneName ` set (take k (scene_bones sc)) \<longrightarrow>
              boneMapping m (mBoneName (scene_bones sc ! k))
                = Some (card (mBoneName ` set (take k (scene_bones sc))))) \<and>
           dom (boneMapping m) = mBoneName ` set (scene_bones sc) \<and>
           bonesCount m = card (mBoneName ` set (scene_bones sc))"
proof -
  let ?bones = "scene_bones sc"
  let ?m = "Model_new g0 :: ('a, 'b) Model"
  have "same_registry ?m (SetDirectory ?m dir)"
    by (simp add: same_registry_def SetDirectory_def)
  from binds_start [OF this InitFromScene_binds [OF assms(1)]] obtain "is" mb where
    r: "bindAll ?m ?bones = Inr (is, mb)" and s: "same_registry mb m"
    unfolding binds_def by blast
  have d0: "dom (boneMapping ?m) = {}" by (simp add: Model_new_def)
  have "card (dom (boneMapping ?m) \<union> mBoneName ` set ?bones) < 2 ^ 32"
    using assms(2) by (simp add: d0)
  from bindAll_general [OF Model_new_ok this] r have
    l: "length is = length ?bones" and
    ok: "registry_ok mb" and d: "dom (boneMapping mb) = mBoneName ` set ?bones" and
    idx: "\<forall>k<length ?bones. boneMapping mb (mBoneName (?bones ! k)) = Some (is ! k)" and
    new: "\<forall>k<length ?bones.
              mBoneName (?bones ! k) \<notin> mBoneName ` set (take k ?bones) \<longrightarrow>
              is ! k = card (mBoneName ` set (take k ?bones))"
    unfolding d0 by auto
  from s have bm: "boneMapping m = boneMapping mb" and bc: "bonesCount m = bonesCount mb"
    by (simp_all add: same_registry_def)
  have idx': "\<forall>k<length ?bones. boneMapping m (mBoneName (?bones ! k)) = Some (is ! k)"
    using idx by (simp add: bm)
  have same: "\<forall>j<length ?bones. \<forall>k<length ?bones.
              mBoneName (?bones ! j) = mBoneName (?bones ! k) \<longrightarrow> is ! j = is ! k"
  proof (intro allI impI)
    fix j k assume j: "j < length ?bones" and k: "k < length ?bones"
      and e: "mBoneName (?bones ! j) = mBoneName (?bones ! k)"
    from idx j have "boneMapping mb (mBoneName (?bones ! j)) = Some (is ! j)" by simp
    moreover from idx k have "boneMapping mb (mBoneName (?bones ! k)) = Some (is ! k)" by simp
    ultimately show "is ! j = is ! k" using e by simp
  qed
  have cnt: "bonesCount m = card (mBoneName ` set ?bones)"
    using ok d bc by (simp add: registry_ok_def)
  have fin: "\<forall>k<length ?bones.
              mBoneName (?bones ! k) \<notin> mBoneName ` set (take k ?bones) \<longrightarrow>
              boneMapping m (mBoneName (?bones ! k)) = Some (card (mBoneName ` set (take k ?bones)))"
    using idx' new by simp
  have dm: "dom (boneMapping m) = mBoneName ` set ?bones"
    using d by (simp add: bm)
  from r s l idx' same new fin dm cnt show ?thesis by (intro exI conjI)
qed

theorem bind_idempotent_sequential_witness:
  "map_sum id fst (InitFromScene sample_library (\<lambda>i v. sample_vertex 7) sample_files
      (SetDirectory (Model_new (Mat2 9 9 9 9)) ''assets'') sample_world sample_scene)
     = Inr sample_model \<and>
   map mBoneName (scene_bones sample_scene) = [''hip'', ''knee'', ''knee''] \<and>
   card (mBoneName ` set (scene_bones sample_scene)) < 2 ^ 32 \<and>
   boneMapping sample_model ''hip'' = Some 0 \<and> boneMapping sample_model ''knee'' = Some 1 \<and>
   bonesCount sample_model = 2"
proof -
  let ?I = "InitFromScene sample_library (\<lambda>i v. sample_vertex 7) sample_files
      (SetDirectory (Model_new (Mat2 9 9 9 9)) ''assets'') sample_world sample_scene"
  have i: "?I = Inr (sample_model, snd (projr ?I))"
    by (simp add: sample_model_def SetDirectory_def init_defs)
  have n: "map mBoneName (scene_bones sample_scene) = [''hip'', ''knee'', ''knee'']"
    by (simp add: scene_bones_def sample_scene_def sample_mesh0_def sample_mesh1_def)
  have s: "mBoneName ` set (scene_bones sample_scene) = {''hip'', ''knee''}"
    using arg_cong [OF n, of set] by auto
  have c: "card (mBoneName ` set (scene_bones sample_scene)) < 2 ^ 32"
    by (simp add: s)
  have l: "length (scene_bones sample_scene) = 3"
    using arg_cong [OF n, of length] by simp
  have t: "mBoneName (scene_bones sample_scene ! 0) = ''hip''"
    "mBoneName (scene_bones sample_scene ! 1) = ''knee''"
    "mBoneName ` set (take 0 (scene_bones sample_scene)) = {}"
    "mBoneName ` set (take 1 (scene_bones sample_scene)) = {''hip''}"
    by (simp_all add: scene_bones_def sample_scene_def sample_mesh0_def sample_mesh1_def)
  from bind_idempotent_sequential [OF i c]
  obtain "is" where
    idx: "\<forall>k<length (scene_bones sample_scene).
              boneMapping sample_model (mBoneName (scene_bones sample_scene ! k)) = Some (is ! k)" and
    new: "\<forall>k<length (scene_bones sample_scene).
              mBoneName (scene_bones sample_scene ! k)
                \<notin> mBoneName ` set (take k (scene_bones sample_scene)) \<longrightarrow>
              is ! k = card (mBoneName ` set (take k (scene_bones sample_scene)))" and
    cnt: "bonesCount sample_model = card (mBoneName ` set (scene_bones sample_scene))"
    by blast
  from new l t have i0: "is ! 0 = 0" by simp
  from new l t have i1: "is ! 1 = 1" by simp
  from idx l have "boneMapping sample_model (mBoneName (scene_bones sample_scene ! 0)) = Some (is ! 0)"
    by simp
  then have h: "boneMapping sample_model ''hip'' = Some 0" by (simp only: t i0)
  from idx l have "boneMapping sample_model (mBoneName (scene_bones sample_scene ! 1)) = Some (is ! 1)"
    by simp
  then have k: "boneMapping sample_model ''knee'' = Some 1" by (simp only: t i1)
  from cnt have b: "bonesCount sample_model = 2" by (simp add: s)
  from i have "map_sum id fst ?I = Inr sample_model"
    by (metis map_sum.simps(2) fst_conv id_apply)
  with n c h k b show ?thesis by (intro conjI)
qed

section \<open>Selecting a clip\<close>

text \<open>
  C8.  With a scene loaded, \<open>SetAnimation\<close> with an index at or past the number of clips
  returns normally and leaves the whole model, the current clip with it, as it was; with
  an index below the number of clips it sets \<open>currentAnimation\<close> to that index and changes
  nothing else.
\<close>

theorem SetAnimation_range:
  assumes "scene m = Some sc"
  shows "SetAnimation m animation =
           Inr (if animation < length (mAnimations sc) then m\<lparr>currentAnimation := animation\<rparr>
                else m)"
  using assms by (simp add: SetAnimation_def GetNumAnimations_def)

theorem SetAnimation_range_witness:
  "SetAnimation sample_loaded 3 = Inr sample_loaded \<and>
   SetAnimation sample_loaded 7 = Inr sample_loaded \<and>
   SetAnimation sample_loaded 1 = Inr (sample_loaded\<lparr>currentAnimation := 1\<rparr>)"
  using SetAnimation_range [of sample_loaded sample_scene 3]
    SetAnimation_range [of sample_loaded sample_scene 7]
    SetAnimation_range [of sample_loaded sample_scene 1]
  by (simp add: sample_loaded_def sample_scene_def)


end
